theory Spec2Isabelle
  imports Complex_Main
begin

section \<open>Fib Alerts Dashboard: levels, window, drag snapping, alerts, indicators\<close>

text \<open>
  A shallow embedding of the chart component (\<^verbatim>\<open>AssetChart\<close>, with its helpers
  \<^verbatim>\<open>toHeikinAshi\<close>, \<^verbatim>\<open>getLinePrice\<close>, \<^verbatim>\<open>sma\<close>) and of the dashboard's alert feed
  (\<^verbatim>\<open>pushAlert\<close>).

  Conventions of the model.
  \<^item> A JavaScript number is a \<open>real\<close>. Where the code depends on what doubles do
    beyond that, the dependence is a parameter: \<^verbatim>\<open>Number.isFinite\<close> of a computed price
    is the predicate \<open>isFinite\<close> of the hydration step, and the arithmetic of the running
    sum of \<^verbatim>\<open>sma\<close> is the triple \<open>fadd\<close>, \<open>fsub\<close>, \<open>fdiv\<close>. A field that may hold
    \<^verbatim>\<open>null\<close>/\<^verbatim>\<open>undefined\<close> (or something that is not a finite number) is an
    \<open>option\<close>, \<open>None\<close> standing for that case.
  \<^item> A React state cell is a field of a state record; an effect is a function of the
    values it reads that returns the calls it makes on its callbacks.
  \<^item> Values produced by collaborators outside the repository (the RSI library, the
    chart's coordinate mapping, the clock, the HTTP fetch) are inputs of the step that
    uses them.
\<close>

subsection \<open>Data model\<close>

text \<open>A candle, as built from a kline: \<^verbatim>\<open>{time, open, high, low, close, volume}\<close>.\<close>

record bar =
  time :: int
  open_price :: real
  high :: real
  low :: real
  close :: real
  volume :: real

text \<open>
  A Fibonacci line as \<^verbatim>\<open>initFibLines\<close> creates it. \<open>price = None\<close> is the \<^verbatim>\<open>null\<close>
  price; \<open>ratio = None\<close> is a missing ratio (\<^verbatim>\<open>getLinePrice\<close> tests for it);
  \<open>rsiThreshold = None\<close> is a threshold that fails \<^verbatim>\<open>Number.isFinite\<close>; an empty
  \<open>rsiOp\<close> is a falsy operator (\<^verbatim>\<open>ln.rsiOp || ">="\<close>).
\<close>

record fib_level =
  level_id :: string
  symbol :: string
  ratio :: "real option"
  price :: "real option"
  enabled :: bool
  alertEnabled :: bool
  rsiThreshold :: "real option"
  rsiOp :: string
  color :: string

text \<open>A point of an overlay line: \<^verbatim>\<open>{time, value}\<close>.\<close>

record line_point =
  ptime :: int
  pvalue :: real

text \<open>
  The text of an alert is the template string
  \<^verbatim>\<open>`${symbol} ${timeframe} crossed ${Number(ln.ratio)} at ${ln.price.toFixed(6)} | RSI ${useHaRsi ? "(HA)" : ""}=${(rsiVal || 0).toFixed(1)}`\<close>;
  the model keeps the values it is made of.
\<close>

record alert_message =
  msg_symbol :: string
  msg_timeframe :: string
  msg_ratio :: real
  msg_price :: real
  msg_ha :: bool
  msg_rsi :: real

text \<open>The object handed to \<^verbatim>\<open>onAlert\<close>: \<^verbatim>\<open>{ ts: Date.now(), message, delivered }\<close>.\<close>

record alert_event =
  ts :: nat
  message :: alert_message
  delivered :: bool

subsection \<open>The alert feed of the dashboard\<close>

text \<open>
  \<^verbatim>\<open>setAlerts((prev) => [{ ...a }, ...prev].slice(0, 200))\<close>. The speech call that
  follows in \<^verbatim>\<open>pushAlert\<close> does not touch the feed.
\<close>

definition pushAlert :: "alert_event \<Rightarrow> alert_event list \<Rightarrow> alert_event list" where
  "pushAlert a prev = take 200 (a # prev)"

text \<open>The feed after a sequence of pushes, oldest push first.\<close>

definition pushAll :: "alert_event list \<Rightarrow> alert_event list \<Rightarrow> alert_event list" where
  "pushAll evs prev = foldl (\<lambda>feed a. pushAlert a feed) prev evs"

subsection \<open>Heikin-Ashi candles\<close>

text \<open>
  The body of the loop of \<^verbatim>\<open>toHeikinAshi\<close> at index \<open>i\<close>; \<open>out\<close> holds the
  candles pushed so far, \<open>b\<close> is \<^verbatim>\<open>bars[i]\<close>, and \<open>opn\<close> is the source's \<^verbatim>\<open>o\<close>.
\<close>

definition haCandle :: "bar list \<Rightarrow> nat \<Rightarrow> bar \<Rightarrow> bar" where
  "haCandle out i b =
     (let c = (open_price b + high b + low b + close b) / 4;
          opn = (if i = 0 then (open_price b + close b) / 2
                 else (let prev = out ! (i - 1) in (open_price prev + close prev) / 2))
      in \<lparr>time = time b, open_price = opn, high = max (high b) (max opn c),
          low = min (low b) (min opn c), close = c, volume = volume b\<rparr>)"

function toHeikinAshi_loop :: "bar list \<Rightarrow> nat \<Rightarrow> bar list \<Rightarrow> bar list" where
  "toHeikinAshi_loop bs i out =
     (if i < length bs
      then toHeikinAshi_loop bs (i + 1) (out @ [haCandle out i (bs ! i)])
      else out)"
  by pat_completeness auto
termination
  by (relation "measure (\<lambda>(bs, i, out). length bs - i)") auto

declare toHeikinAshi_loop.simps [simp del]

definition toHeikinAshi :: "bar list \<Rightarrow> bar list" where
  "toHeikinAshi bs = (if bs = [] then [] else toHeikinAshi_loop bs 0 [])"

subsection \<open>Smoothing\<close>

text \<open>
  The loop of \<^verbatim>\<open>sma\<close>: \<open>acc\<close> is the running \<^verbatim>\<open>sum\<close> on entry, \<open>t2\<close> its value
  after the two updates, \<open>w\<close> the window after \<^verbatim>\<open>Math.max(1, Math.floor(window))\<close>.
  \<open>fadd\<close>, \<open>fsub\<close> and \<open>fdiv\<close> are the \<^verbatim>\<open>+=\<close>, \<^verbatim>\<open>-=\<close> and \<^verbatim>\<open>/\<close> of the
  source, which work on doubles.
\<close>

function sma_loop :: "(real \<Rightarrow> real \<Rightarrow> real) \<Rightarrow> (real \<Rightarrow> real \<Rightarrow> real) \<Rightarrow> (real \<Rightarrow> real \<Rightarrow> real)
    \<Rightarrow> line_point list \<Rightarrow> nat \<Rightarrow> nat \<Rightarrow> real \<Rightarrow> line_point list \<Rightarrow> line_point list" where
  "sma_loop fadd fsub fdiv arr w i acc out =
     (if i < length arr
      then (let t1 = fadd acc (pvalue (arr ! i));
                t2 = (if i \<ge> w then fsub t1 (pvalue (arr ! (i - w))) else t1)
            in sma_loop fadd fsub fdiv arr w (i + 1) t2
                 (out @ [if i \<ge> w - 1
                         then \<lparr>ptime = ptime (arr ! i), pvalue = fdiv t2 (real w)\<rparr>
                         else \<lparr>ptime = ptime (arr ! i), pvalue = pvalue (arr ! i)\<rparr>]))
      else out)"
  by pat_completeness auto
termination
  by (relation "measure (\<lambda>(fadd, fsub, fdiv, arr, w, i, acc, out). length arr - i)") auto

declare sma_loop.simps [simp del]

definition sma :: "(real \<Rightarrow> real \<Rightarrow> real) \<Rightarrow> (real \<Rightarrow> real \<Rightarrow> real) \<Rightarrow> (real \<Rightarrow> real \<Rightarrow> real)
    \<Rightarrow> line_point list \<Rightarrow> real \<Rightarrow> line_point list" where
  "sma fadd fsub fdiv arr window =
     (let w = nat (max 1 \<lfloor>window\<rfloor>)
      in if w \<le> 1 then arr else sma_loop fadd fsub fdiv arr w 0 0 [])"

text \<open>
  The running sum apart from the loop: one update of it at index \<open>i\<close>, and its value
  after the updates at the indices \<open>0, \<dots>, i\<close>, starting from 0.
\<close>

definition sumStep :: "(real \<Rightarrow> real \<Rightarrow> real) \<Rightarrow> (real \<Rightarrow> real \<Rightarrow> real) \<Rightarrow> line_point list
    \<Rightarrow> nat \<Rightarrow> nat \<Rightarrow> real \<Rightarrow> real" where
  "sumStep fadd fsub arr w i acc =
     (let t1 = fadd acc (pvalue (arr ! i))
      in if i \<ge> w then fsub t1 (pvalue (arr ! (i - w))) else t1)"

fun runningSum :: "(real \<Rightarrow> real \<Rightarrow> real) \<Rightarrow> (real \<Rightarrow> real \<Rightarrow> real) \<Rightarrow> line_point list
    \<Rightarrow> nat \<Rightarrow> nat \<Rightarrow> real" where
  "runningSum fadd fsub arr w 0 = sumStep fadd fsub arr w 0 0"
| "runningSum fadd fsub arr w (Suc i) = sumStep fadd fsub arr w (Suc i) (runningSum fadd fsub arr w i)"

text \<open>
  The point that the smoothed series is to hold at index \<open>j\<close> for the window \<open>w\<close>;
  the invariant of \<open>sma_loop\<close> is stated with it.
\<close>

definition smaPoint :: "(real \<Rightarrow> real \<Rightarrow> real) \<Rightarrow> (real \<Rightarrow> real \<Rightarrow> real) \<Rightarrow> (real \<Rightarrow> real \<Rightarrow> real)
    \<Rightarrow> line_point list \<Rightarrow> nat \<Rightarrow> nat \<Rightarrow> line_point" where
  "smaPoint fadd fsub fdiv arr w j =
     (if j \<ge> w - 1
      then \<lparr>ptime = ptime (arr ! j), pvalue = fdiv (runningSum fadd fsub arr w j) (real w)\<rparr>
      else \<lparr>ptime = ptime (arr ! j), pvalue = pvalue (arr ! j)\<rparr>)"

subsection \<open>Double arithmetic\<close>

text \<open>
  The double nearest to a real, away from overflow and underflow: the real is divided by
  its unit in the last place (53 significant bits), rounded to the nearest integer, to
  the even one of two equally near, and multiplied back. \<open>dadd\<close>, \<open>dsub\<close> and
  \<open>ddiv\<close> are \<^verbatim>\<open>+\<close>, \<^verbatim>\<open>-\<close> and \<^verbatim>\<open>/\<close> on doubles in that range.
\<close>

definition roundEven :: "real \<Rightarrow> int" where
  "roundEven q =
     (let f = \<lfloor>q\<rfloor>; d = q - of_int f
      in if d < 1 / 2 then f else if 1 / 2 < d then f + 1 else if even f then f else f + 1)"

definition ulp :: "real \<Rightarrow> real" where
  "ulp x = 2 powr (of_int \<lfloor>log 2 \<bar>x\<bar>\<rfloor> - 52)"

definition dbl :: "real \<Rightarrow> real" where
  "dbl x = (if x = 0 then 0 else of_int (roundEven (x / ulp x)) * ulp x)"

definition dadd :: "real \<Rightarrow> real \<Rightarrow> real" where "dadd x y = dbl (x + y)"
definition dsub :: "real \<Rightarrow> real \<Rightarrow> real" where "dsub x y = dbl (x - y)"
definition ddiv :: "real \<Rightarrow> real \<Rightarrow> real" where "ddiv x y = dbl (x / y)"

subsection \<open>Rolling window and the price of a line\<close>

text \<open>
  The window of the lines effect: \<^verbatim>\<open>last\<close>, \<^verbatim>\<open>look = bars.slice(-120)\<close>, \<^verbatim>\<open>hi\<close>,
  \<^verbatim>\<open>lo\<close> and \<^verbatim>\<open>range\<close>, each \<^verbatim>\<open>null\<close> when there is no bar.
\<close>

definition last_bar :: "bar list \<Rightarrow> bar option" where
  "last_bar bs = (if bs \<noteq> [] then Some (last bs) else None)"

definition look :: "bar list \<Rightarrow> bar list" where
  "look bs = drop (length bs - 120) bs"

definition hi :: "bar list \<Rightarrow> real option" where
  "hi bs = (if look bs \<noteq> [] then Some (Max (set (map high (look bs)))) else None)"

definition lo :: "bar list \<Rightarrow> real option" where
  "lo bs = (if look bs \<noteq> [] then Some (Min (set (map low (look bs)))) else None)"

definition range_w :: "bar list \<Rightarrow> real option" where
  "range_w bs = (case (hi bs, lo bs) of (Some h, Some l) \<Rightarrow> Some (h - l) | _ \<Rightarrow> None)"

definition getLinePrice :: "fib_level \<Rightarrow> real option \<Rightarrow> real option \<Rightarrow> bar option \<Rightarrow> real option" where
  "getLinePrice line rg l lst =
     (case price line of
        Some p \<Rightarrow> Some p
      | None \<Rightarrow>
          (case (rg, l, ratio line) of
             (Some rgv, Some lv, Some r) \<Rightarrow> Some (lv + r * rgv)
           | _ \<Rightarrow> map_option close lst))"

text \<open>The price of a line on the current buffer, as every caller in the effect asks for it.\<close>

definition linePrice :: "fib_level \<Rightarrow> bar list \<Rightarrow> real option" where
  "linePrice line bs = getLinePrice line (range_w bs) (lo bs) (last_bar bs)"

subsection \<open>Hydration\<close>

text \<open>
  Step 0 of the lines effect. The result is the argument of the call of
  \<^verbatim>\<open>onFibLinesUpdate(symbol, filled)\<close> when the effect makes it, \<open>None\<close> when it does
  not. \<open>isFunction\<close> is \<^verbatim>\<open>typeof onFibLinesUpdate === "function"\<close>; \<open>isFinite p\<close> is
  \<^verbatim>\<open>Number.isFinite(p)\<close> of the price that the code computes as a double.
\<close>

definition fillLine :: "(real \<Rightarrow> bool) \<Rightarrow> fib_level \<Rightarrow> bar list \<Rightarrow> fib_level" where
  "fillLine isFinite line bs =
     (case price line of
        None \<Rightarrow> (case getLinePrice line (range_w bs) (lo bs) (last_bar bs) of
                   Some p \<Rightarrow> if isFinite p then line\<lparr>price := Some p\<rparr> else line
                 | None \<Rightarrow> line)
      | Some _ \<Rightarrow> line)"

definition hydrate :: "(real \<Rightarrow> bool) \<Rightarrow> bool \<Rightarrow> fib_level list \<Rightarrow> bar list
    \<Rightarrow> fib_level list option" where
  "hydrate isFinite isFunction fibLines bs =
     (if fibLines \<noteq> [] \<and> (range_w bs \<noteq> None \<or> last_bar bs \<noteq> None)
      then (let filled = map (\<lambda>line. fillLine isFinite line bs) fibLines;
                changed = list_ex (\<lambda>(line, old). price line \<noteq> price old) (zip filled fibLines)
            in if changed \<and> isFunction then Some filled else None)
      else None)"

subsection \<open>Snap candidates and dragging\<close>









subsection \<open>Live updates and the alert effect\<close>

text \<open>The state cells of the chart that the alert effect reads.\<close>

record chart_state =
  bars :: "bar list"
  lastPrice :: "real option"
  rsi :: "real option"
  haRsi :: "real option"

text \<open>
  The updater of \<^verbatim>\<open>setBars\<close> in \<^verbatim>\<open>ws.onmessage\<close>: a bar of the time bucket of the
  last bar replaces it, any other bar is appended.
\<close>

definition pushBar :: "bar list \<Rightarrow> bar \<Rightarrow> bar list" where
  "pushBar prev b =
     (if prev \<noteq> [] \<and> time (last prev) = time b
      then prev[length prev - 1 := b] else prev @ [b])"

definition lastValue :: "real list \<Rightarrow> real option" where
  "lastValue r = (if r \<noteq> [] then Some (last r) else None)"

text \<open>
  One message of the live stream. \<open>r\<close> and \<open>rha\<close> are what the two calls of the RSI
  library return for the new buffer (\<open>None\<close>: the call threw; the surrounding
  \<^verbatim>\<open>try\<close> then leaves the cells not yet set as they were).
\<close>

definition onmessage :: "chart_state \<Rightarrow> bar \<Rightarrow> real list option \<Rightarrow> real list option \<Rightarrow> chart_state" where
  "onmessage st b r rha =
     \<lparr>bars = pushBar (bars st) b,
      lastPrice = Some (close b),
      rsi = (case r of None \<Rightarrow> rsi st | Some xs \<Rightarrow> lastValue xs),
      haRsi = (case r of None \<Rightarrow> haRsi st
               | Some xs \<Rightarrow> (case rha of None \<Rightarrow> haRsi st | Some ys \<Rightarrow> lastValue ys))\<rparr>"

text \<open>\<^verbatim>\<open>prevClose = bars.length > 1 ? bars[bars.length - 2].close : null\<close>.\<close>

definition prevClose :: "bar list \<Rightarrow> real option" where
  "prevClose bs = (if length bs > 1 then Some (close (bs ! (length bs - 2))) else None)"

text \<open>
  \<^verbatim>\<open>wasBelow\<close>, \<^verbatim>\<open>isBelow\<close> and \<^verbatim>\<open>crossed\<close>. The current price is the cell
  \<^verbatim>\<open>lastPrice\<close>; compared while still \<^verbatim>\<open>null\<close> it counts as 0.
\<close>

definition crossed :: "real option \<Rightarrow> real option \<Rightarrow> real \<Rightarrow> bool" where
  "crossed pc cur lp =
     (let wasBelow = (case pc of Some c \<Rightarrow> Some (c < lp) | None \<Rightarrow> None);
          isBelow = (case cur of Some c \<Rightarrow> c < lp | None \<Rightarrow> 0 < lp)
      in wasBelow \<noteq> None \<and> wasBelow \<noteq> Some isBelow)"

text \<open>\<^verbatim>\<open>op\<close> (here \<open>opr\<close>) and \<^verbatim>\<open>ok\<close>.\<close>

definition rsiOk :: "string \<Rightarrow> real \<Rightarrow> real \<Rightarrow> bool" where
  "rsiOk operator rsiVal threshold =
     (let opr = (if operator = [] then ''>='' else operator)
      in if opr = ''>='' then rsiVal \<ge> threshold else rsiVal \<le> threshold)"

text \<open>
  The body of \<^verbatim>\<open>fibLines.forEach\<close> in the alert effect: the message it sends to
  \<^verbatim>\<open>/alert\<close>, or \<open>None\<close> where it returns early.
\<close>

definition levelAlert :: "string \<Rightarrow> string \<Rightarrow> bool \<Rightarrow> chart_state \<Rightarrow> fib_level \<Rightarrow> alert_message option" where
  "levelAlert symb timeframe useHaRsi st line =
     (let rsiVal = (if useHaRsi then haRsi st else rsi st);
          pc = prevClose (bars st)
      in if \<not> enabled line \<or> price line = None \<or> \<not> alertEnabled line then None
         else if rsiVal = None \<or> rsiThreshold line = None then None
         else if \<not> crossed pc (lastPrice st) (the (price line)) then None
         else if \<not> rsiOk (rsiOp line) (the rsiVal) (the (rsiThreshold line)) then None
         else Some \<lparr>msg_symbol = symb, msg_timeframe = timeframe,
                    msg_ratio = (case ratio line of Some r \<Rightarrow> r | None \<Rightarrow> 0),
                    msg_price = the (price line), msg_ha = useHaRsi, msg_rsi = the rsiVal\<rparr>)"

text \<open>The alert effect: the messages it posts, in the order of the lines.\<close>

definition alertEffect :: "string \<Rightarrow> string \<Rightarrow> bool \<Rightarrow> chart_state \<Rightarrow> fib_level list \<Rightarrow> alert_message list" where
  "alertEffect symb timeframe useHaRsi st fibLines =
     (if bars st = [] \<or> fibLines = [] then []
      else List.map_filter (levelAlert symb timeframe useHaRsi st) fibLines)"

text \<open>
  The outcome of \<^verbatim>\<open>fetch("/alert", ...)\<close>: a response with its \<^verbatim>\<open>ok\<close> flag and
  whether \<^verbatim>\<open>res.json()\<close> then succeeds, or a rejected promise.
\<close>

datatype fetch_outcome = Response bool bool | Rejected

text \<open>The event the asynchronous block builds once the fetch has settled.\<close>

definition sendAlert :: "nat \<Rightarrow> fetch_outcome \<Rightarrow> alert_message \<Rightarrow> alert_event" where
  "sendAlert now res m =
     \<lparr>ts = now, message = m,
      delivered = (case res of Response ok jsonOk \<Rightarrow> ok | Rejected \<Rightarrow> False)\<rparr>"

text \<open>
  The dashboard passes \<^verbatim>\<open>onAlert={(a) => pushAlert(a)}\<close>, so the block ends by pushing
  the event onto the feed.
\<close>

definition onAlert :: "nat \<Rightarrow> fetch_outcome \<Rightarrow> alert_message \<Rightarrow> alert_event list \<Rightarrow> alert_event list" where
  "onAlert now res m feed = pushAlert (sendAlert now res m) feed"

subsection \<open>Sample inputs\<close>

text \<open>A candle whose four prices are all \<open>c\<close>.\<close>

definition flatBar :: "int \<Rightarrow> real \<Rightarrow> bar" where
  "flatBar t c = \<lparr>time = t, open_price = c, high = c, low = c, close = c, volume = 0\<rparr>"

definition bar1 :: bar where
  "bar1 = \<lparr>time = 0, open_price = 10, high = 12, low = 9, close = 11, volume = 1\<rparr>"

definition bar2 :: bar where
  "bar2 = \<lparr>time = 60, open_price = 11, high = 15, low = 10, close = 14, volume = 1\<rparr>"

definition sampleMessage :: alert_message where
  "sampleMessage = \<lparr>msg_symbol = ''XRPUSDT'', msg_timeframe = ''1m'', msg_ratio = 0.5,
     msg_price = 109, msg_ha = False, msg_rsi = 65\<rparr>"

definition sampleEvent :: "nat \<Rightarrow> alert_event" where
  "sampleEvent n = \<lparr>ts = n, message = sampleMessage, delivered = True\<rparr>"

definition sampleFeed :: "alert_event list" where
  "sampleFeed = map sampleEvent (rev [0..<200])"

definition pt :: "int \<Rightarrow> real \<Rightarrow> line_point" where
  "pt t v = \<lparr>ptime = t, pvalue = v\<rparr>"

definition samplePoints :: "line_point list" where
  "samplePoints = [pt 0 1, pt 60 2, pt 120 3, pt 180 4, pt 240 8]"

text \<open>The series \<^verbatim>\<open>[1e16, 1, 1, 1]\<close>.\<close>

definition bigThenOnes :: "line_point list" where
  "bigThenOnes = [pt 0 10000000000000000, pt 60 1, pt 120 1, pt 180 1]"


definition lvl :: "string \<Rightarrow> real option \<Rightarrow> fib_level" where
  "lvl i p = \<lparr>level_id = i, symbol = ''XRPUSDT'', ratio = Some 0.5, price = p, enabled = True,
     alertEnabled = True, rsiThreshold = Some 60, rsiOp = ''>='', color = ''#ffffff''\<rparr>"


definition sampleLines :: "fib_level list" where
  "sampleLines = [lvl ''a'' None, lvl ''b'' (Some 3)]"

definition sampleBars :: "bar list" where
  "sampleBars = [flatBar 0 100, flatBar 60 110]"

text \<open>
  For the sample runs of the hydration step: the reals below \<open>2 ^ 1024\<close> in magnitude,
  beyond which no finite double lies, and a line whose ratio takes its price past them.
\<close>

definition belowOverflow :: "real \<Rightarrow> bool" where
  "belowOverflow x = (\<bar>x\<bar> < 2 ^ 1024)"

definition hugeLine :: fib_level where
  "hugeLine = (lvl ''c'' None)\<lparr>ratio := Some (10 ^ 308)\<rparr>"

text \<open>
  A chart before any bar has arrived, and the three ticks that bring the closes 110, 108
  and 112, each with an RSI of 65.
\<close>

definition emptyChart :: chart_state where
  "emptyChart = \<lparr>bars = [], lastPrice = None, rsi = None, haRsi = None\<rparr>"

definition closes1 :: chart_state where
  "closes1 = onmessage emptyChart (flatBar 0 110) (Some [65]) (Some [65])"

definition closes2 :: chart_state where
  "closes2 = onmessage closes1 (flatBar 60 108) (Some [65]) (Some [65])"

definition closes3 :: chart_state where
  "closes3 = onmessage closes2 (flatBar 120 112) (Some [65]) (Some [65])"

text \<open>The second of these ticks with an RSI of 65, and with an RSI of 55.\<close>

definition gate65 :: chart_state where
  "gate65 = onmessage closes1 (flatBar 60 108) (Some [65]) (Some [65])"

definition gate55 :: chart_state where
  "gate55 = onmessage closes1 (flatBar 60 108) (Some [55]) (Some [55])"

text \<open>
  Fifteen one-minute bars closing at 108, then a bar of the next minute that arrives
  closing at 112 and is updated, within its minute, to close at 112.5; the RSI library
  reports 100 on both buffers.
\<close>

definition history :: "bar list" where
  "history = map (\<lambda>t. flatBar t 108) [0, 60, 120, 180, 240, 300, 360, 420, 480, 540, 600, 660, 720, 780, 840]"

definition chart0 :: chart_state where
  "chart0 = \<lparr>bars = history, lastPrice = Some 108, rsi = Some 100, haRsi = Some 100\<rparr>"

definition tick1 :: chart_state where
  "tick1 = onmessage chart0 (flatBar 900 112) (Some [100, 100]) (Some [100, 100])"

definition tick2 :: chart_state where
  "tick2 = onmessage tick1 (flatBar 900 112.5) (Some [100, 100]) (Some [100, 100])"

section \<open>Properties\<close>

subsection \<open>Alert feed\<close>

lemma pushAlert_Cons: "pushAlert a prev = a # take 199 prev"
  by (simp add: pushAlert_def take_Cons')

lemma pushAll_snoc: "pushAll (evs @ [a]) prev = pushAlert a (pushAll evs prev)"
  by (simp add: pushAll_def)

lemma pushAll_empty: "pushAll evs [] = take 200 (rev evs)"
proof (induction evs rule: rev_induct)
  case Nil
  show ?case by (simp add: pushAll_def)
next
  case (snoc a evs)
  have "pushAll (evs @ [a]) [] = a # take 199 (take 200 (rev evs))"
    by (simp only: pushAll_snoc snoc.IH pushAlert_Cons)
  also have "\<dots> = take 200 (rev (evs @ [a]))"
    by (simp add: take_Cons' min_def)
  finally show ?case .
qed

text \<open>
  C7. After a push the feed holds at most 200 events, the pushed event first and the
  events it held before behind it in their old order; a push onto a feed of 200 events
  keeps all of them but the last (the oldest). Pushing a sequence of events onto the
  empty feed leaves the 200 most recent, most recent first.
\<close>

theorem alert_log_bound_and_order:
  "length (pushAlert a prev) \<le> 200
   \<and> pushAlert a prev = a # take 199 prev
   \<and> (length prev = 200 \<longrightarrow> pushAlert a prev = a # butlast prev)
   \<and> pushAll evs [] = take 200 (rev evs)"
proof -
  have "length prev = 200 \<Longrightarrow> take 199 prev = butlast prev"
    by (simp add: butlast_conv_take)
  then show ?thesis
    by (simp add: pushAlert_Cons pushAll_empty)
qed

theorem alert_log_bound_and_order_witness:
  "length sampleFeed = 200
   \<and> pushAlert (sampleEvent 200) sampleFeed = sampleEvent 200 # butlast sampleFeed
   \<and> length (pushAlert (sampleEvent 200) sampleFeed) = 200"
proof -
  have len: "length sampleFeed = 200"
    by (simp add: sampleFeed_def)
  show ?thesis
    using len alert_log_bound_and_order [of "sampleEvent 200" sampleFeed "[]"]
    by (simp add: butlast_conv_take)
qed

subsection \<open>Heikin-Ashi candles\<close>

lemma haCandle_cong:
  "(i \<noteq> 0 \<Longrightarrow> out ! (i - 1) = out' ! (i - 1)) \<Longrightarrow> haCandle out i b = haCandle out' i b"
  by (simp add: haCandle_def Let_def)

lemma toHeikinAshi_loop_done: "\<not> i < length bs \<Longrightarrow> toHeikinAshi_loop bs i out = out"
  by (subst toHeikinAshi_loop.simps) simp

lemma toHeikinAshi_loop_step:
  "i < length bs \<Longrightarrow> toHeikinAshi_loop bs i out
     = toHeikinAshi_loop bs (i + 1) (out @ [haCandle out i (bs ! i)])"
  by (subst toHeikinAshi_loop.simps) simp

text \<open>
  The loop keeps the invariant that every candle pushed so far is \<open>haCandle\<close> of its
  bar and of the candle before it.
\<close>

lemma toHeikinAshi_loop_inv:
  "length out = i \<Longrightarrow> i \<le> length bs
   \<Longrightarrow> (\<forall>j<i. out ! j = haCandle out j (bs ! j))
   \<Longrightarrow> length (toHeikinAshi_loop bs i out) = length bs
       \<and> (\<forall>j<length bs. toHeikinAshi_loop bs i out ! j
              = haCandle (toHeikinAshi_loop bs i out) j (bs ! j))"
proof (induction bs i out rule: toHeikinAshi_loop.induct)
  case (1 bs i out)
  show ?case
  proof (cases "i < length bs")
    case False
    with "1.prems" have "i = length bs" by simp
    with "1.prems" show ?thesis
      by (simp add: toHeikinAshi_loop_done)
  next
    case True
    let ?out = "out @ [haCandle out i (bs ! i)]"
    have len: "length ?out = i + 1" using "1.prems" by simp
    have inv: "\<forall>j<i + 1. ?out ! j = haCandle ?out j (bs ! j)"
    proof (intro allI impI)
      fix j assume j: "j < i + 1"
      have same: "j \<noteq> 0 \<Longrightarrow> out ! (j - 1) = ?out ! (j - 1)"
        using j "1.prems"(1) by (simp add: nth_append)
      show "?out ! j = haCandle ?out j (bs ! j)"
      proof (cases "j < i")
        case True
        then have "?out ! j = out ! j" using "1.prems"(1) by (simp add: nth_append)
        also have "\<dots> = haCandle out j (bs ! j)" using True "1.prems"(3) by simp
        also have "\<dots> = haCandle ?out j (bs ! j)" by (rule haCandle_cong) (rule same)
        finally show ?thesis .
      next
        case False
        with j have ji: "j = i" by simp
        have "?out ! j = haCandle out i (bs ! i)" using ji "1.prems"(1) by (simp add: nth_append)
        also have "\<dots> = haCandle ?out j (bs ! j)" unfolding ji
          by (rule haCandle_cong) (use same ji in simp)
        finally show ?thesis .
      qed
    qed
    have "length (toHeikinAshi_loop bs (i + 1) ?out) = length bs
       \<and> (\<forall>j<length bs. toHeikinAshi_loop bs (i + 1) ?out ! j
              = haCandle (toHeikinAshi_loop bs (i + 1) ?out) j (bs ! j))"
      using "1.IH" [OF True len _ inv] True by simp
    then show ?thesis
      by (simp add: toHeikinAshi_loop_step [OF True])
  qed
qed

lemma length_toHeikinAshi: "length (toHeikinAshi bs) = length bs"
  using toHeikinAshi_loop_inv [of "[]" 0 bs] by (simp add: toHeikinAshi_def)

lemma toHeikinAshi_nth:
  "j < length bs \<Longrightarrow> toHeikinAshi bs ! j = haCandle (toHeikinAshi bs) j (bs ! j)"
  using toHeikinAshi_loop_inv [of "[]" 0 bs] by (auto simp add: toHeikinAshi_def)

lemma ha_close:
  "i < length bs \<Longrightarrow> close (toHeikinAshi bs ! i)
     = (open_price (bs ! i) + high (bs ! i) + low (bs ! i) + close (bs ! i)) / 4"
  by (subst toHeikinAshi_nth) (simp_all add: haCandle_def Let_def)

lemma ha_open:
  "i < length bs \<Longrightarrow> open_price (toHeikinAshi bs ! i)
     = (if i = 0 then (open_price (bs ! 0) + close (bs ! 0)) / 2
        else (open_price (toHeikinAshi bs ! (i - 1)) + close (toHeikinAshi bs ! (i - 1))) / 2)"
  by (subst toHeikinAshi_nth) (simp_all add: haCandle_def Let_def)

lemma ha_high:
  "i < length bs \<Longrightarrow> high (toHeikinAshi bs ! i)
     = max (high (bs ! i)) (max (open_price (toHeikinAshi bs ! i)) (close (toHeikinAshi bs ! i)))"
  by (subst (1 2 3) toHeikinAshi_nth) (simp_all add: haCandle_def Let_def)

lemma ha_low:
  "i < length bs \<Longrightarrow> low (toHeikinAshi bs ! i)
     = min (low (bs ! i)) (min (open_price (toHeikinAshi bs ! i)) (close (toHeikinAshi bs ! i)))"
  by (subst (1 2 3) toHeikinAshi_nth) (simp_all add: haCandle_def Let_def)

lemma ha_time_volume:
  "i < length bs \<Longrightarrow> time (toHeikinAshi bs ! i) = time (bs ! i)
     \<and> volume (toHeikinAshi bs ! i) = volume (bs ! i)"
  by (subst (1 2) toHeikinAshi_nth) (simp_all add: haCandle_def Let_def)

text \<open>
  C9. The transformed sequence has the length, times and volumes of the bars, and at
  every index \<open>i\<close>: its close is \<open>(O + H + L + C) / 4\<close> of bar \<open>i\<close>; its open is
  \<open>(O + C) / 2\<close> of the first bar at \<open>i = 0\<close> and the mean of the transformed open and
  close at \<open>i - 1\<close> beyond; its high is the greatest of the bar's high and its own open
  and close, its low the least of the bar's low and its own open and close. For the
  single bar \<open>O = 10, H = 12, L = 9, C = 11\<close> the close and the open are both \<open>10.5\<close>.
\<close>

theorem heikin_ashi_transform:
  "length (toHeikinAshi bs) = length bs
   \<and> (\<forall>i<length bs.
        close (toHeikinAshi bs ! i)
          = (open_price (bs ! i) + high (bs ! i) + low (bs ! i) + close (bs ! i)) / 4
      \<and> open_price (toHeikinAshi bs ! i)
          = (if i = 0 then (open_price (bs ! 0) + close (bs ! 0)) / 2
             else (open_price (toHeikinAshi bs ! (i - 1)) + close (toHeikinAshi bs ! (i - 1))) / 2)
      \<and> high (toHeikinAshi bs ! i)
          = max (high (bs ! i)) (max (open_price (toHeikinAshi bs ! i)) (close (toHeikinAshi bs ! i)))
      \<and> low (toHeikinAshi bs ! i)
          = min (low (bs ! i)) (min (open_price (toHeikinAshi bs ! i)) (close (toHeikinAshi bs ! i)))
      \<and> time (toHeikinAshi bs ! i) = time (bs ! i)
      \<and> volume (toHeikinAshi bs ! i) = volume (bs ! i))
   \<and> close (toHeikinAshi [bar1] ! 0) = 10.5
   \<and> open_price (toHeikinAshi [bar1] ! 0) = 10.5"
proof (intro conjI allI impI)
  show "length (toHeikinAshi bs) = length bs"
    by (rule length_toHeikinAshi)
  show "close (toHeikinAshi [bar1] ! 0) = 10.5"
    using ha_close [of 0 "[bar1]"] by (simp add: bar1_def)
  show "open_price (toHeikinAshi [bar1] ! 0) = 10.5"
    using ha_open [of 0 "[bar1]"] by (simp add: bar1_def)
next
  fix i assume "i < length bs"
  then show "close (toHeikinAshi bs ! i)
      = (open_price (bs ! i) + high (bs ! i) + low (bs ! i) + close (bs ! i)) / 4"
    by (rule ha_close)
next
  fix i assume "i < length bs"
  then show "open_price (toHeikinAshi bs ! i)
      = (if i = 0 then (open_price (bs ! 0) + close (bs ! 0)) / 2
         else (open_price (toHeikinAshi bs ! (i - 1)) + close (toHeikinAshi bs ! (i - 1))) / 2)"
    by (rule ha_open)
next
  fix i assume "i < length bs"
  then show "high (toHeikinAshi bs ! i)
      = max (high (bs ! i)) (max (open_price (toHeikinAshi bs ! i)) (close (toHeikinAshi bs ! i)))"
    by (rule ha_high)
next
  fix i assume "i < length bs"
  then show "low (toHeikinAshi bs ! i)
      = min (low (bs ! i)) (min (open_price (toHeikinAshi bs ! i)) (close (toHeikinAshi bs ! i)))"
    by (rule ha_low)
next
  fix i assume "i < length bs"
  then show "time (toHeikinAshi bs ! i) = time (bs ! i)"
    by (rule ha_time_volume [THEN conjunct1])
next
  fix i assume "i < length bs"
  then show "volume (toHeikinAshi bs ! i) = volume (bs ! i)"
    by (rule ha_time_volume [THEN conjunct2])
qed

theorem heikin_ashi_transform_witness:
  "1 < length [bar1, bar2]
   \<and> close (toHeikinAshi [bar1, bar2] ! 1) = 12.5
   \<and> open_price (toHeikinAshi [bar1, bar2] ! 1) = 10.5
   \<and> high (toHeikinAshi [bar1, bar2] ! 1) = 15
   \<and> low (toHeikinAshi [bar1, bar2] ! 1) = 10"
  using heikin_ashi_transform [of "[bar1, bar2]", THEN conjunct2, THEN conjunct1, rule_format, of 0]
    heikin_ashi_transform [of "[bar1, bar2]", THEN conjunct2, THEN conjunct1, rule_format, of 1]
  by (simp add: bar1_def bar2_def)

subsection \<open>Smoothing\<close>

lemma sma_loop_done: "\<not> i < length arr \<Longrightarrow> sma_loop fadd fsub fdiv arr w i acc out = out"
  by (subst sma_loop.simps) simp

lemma sma_loop_step:
  "i < length arr \<Longrightarrow> sma_loop fadd fsub fdiv arr w i acc out =
     sma_loop fadd fsub fdiv arr w (i + 1) (sumStep fadd fsub arr w i acc)
       (out @ [if i \<ge> w - 1
               then \<lparr>ptime = ptime (arr ! i), pvalue = fdiv (sumStep fadd fsub arr w i acc) (real w)\<rparr>
               else \<lparr>ptime = ptime (arr ! i), pvalue = pvalue (arr ! i)\<rparr>])"
  by (subst sma_loop.simps, unfold sumStep_def Let_def, simp only: if_True)

lemma sma_loop_inv:
  "i \<le> length arr \<Longrightarrow> out = map (smaPoint fadd fsub fdiv arr w) [0..<i]
   \<Longrightarrow> acc = (if i = 0 then 0 else runningSum fadd fsub arr w (i - 1))
   \<Longrightarrow> sma_loop fadd fsub fdiv arr w i acc out = map (smaPoint fadd fsub fdiv arr w) [0..<length arr]"
proof (induction "length arr - i" arbitrary: i acc out)
  case 0
  then show ?case by (simp add: sma_loop_done)
next
  case (Suc n)
  then have lt: "i < length arr" by simp
  have rs: "sumStep fadd fsub arr w i acc = runningSum fadd fsub arr w i"
    using Suc.prems(3) by (cases i) simp_all
  have pnt: "(if i \<ge> w - 1
               then \<lparr>ptime = ptime (arr ! i), pvalue = fdiv (runningSum fadd fsub arr w i) (real w)\<rparr>
               else \<lparr>ptime = ptime (arr ! i), pvalue = pvalue (arr ! i)\<rparr>)
      = smaPoint fadd fsub fdiv arr w i"
    by (simp add: smaPoint_def)
  have "sma_loop fadd fsub fdiv arr w (i + 1) (runningSum fadd fsub arr w i)
          (out @ [smaPoint fadd fsub fdiv arr w i])
      = map (smaPoint fadd fsub fdiv arr w) [0..<length arr]"
  proof (rule Suc.hyps(1))
    show "n = length arr - (i + 1)" using Suc.hyps(2) by simp
    show "i + 1 \<le> length arr" using lt by simp
    show "out @ [smaPoint fadd fsub fdiv arr w i] = map (smaPoint fadd fsub fdiv arr w) [0..<i + 1]"
      using Suc.prems(2) by simp
    show "runningSum fadd fsub arr w i
        = (if i + 1 = 0 then 0 else runningSum fadd fsub arr w (i + 1 - 1))" by simp
  qed
  then show ?case
    by (simp only: sma_loop_step [OF lt] pnt rs)
qed

lemma sma_eq:
  "sma fadd fsub fdiv arr window = (let w = nat (max 1 \<lfloor>window\<rfloor>) in
      if w \<le> 1 then arr else map (smaPoint fadd fsub fdiv arr w) [0..<length arr])"
  using sma_loop_inv [of 0 arr "[]" fadd fsub fdiv "nat (max 1 \<lfloor>window\<rfloor>)" 0]
  by (simp add: sma_def Let_def)

lemma sma_nth:
  "i < length arr \<Longrightarrow> 1 < nat (max 1 \<lfloor>window\<rfloor>)
   \<Longrightarrow> sma fadd fsub fdiv arr window ! i = smaPoint fadd fsub fdiv arr (nat (max 1 \<lfloor>window\<rfloor>)) i"
  by (simp add: sma_eq Let_def)

lemma window_sum_step:
  fixes f :: "nat \<Rightarrow> real"
  shows "(if i \<ge> w then (\<Sum>k = i - w..<i. f k) + f i - f (i - w) else (\<Sum>k = i - w..<i. f k) + f i)
         = (\<Sum>k = i + 1 - w..<i + 1. f k)"
proof (cases "i \<ge> w")
  case True
  have a: "(\<Sum>k = i - w..<i. f k) + f i = (\<Sum>k = i - w..<Suc i. f k)"
    by (rule sum.atLeastLessThan_Suc [symmetric]) simp
  have b: "(\<Sum>k = i - w..<Suc i. f k) = f (i - w) + (\<Sum>k = Suc (i - w)..<Suc i. f k)"
    by (rule sum.atLeast_Suc_lessThan) simp
  have c: "Suc (i - w) = i + 1 - w" using True by simp
  have "(\<Sum>k = i - w..<i. f k) + f i - f (i - w) = (\<Sum>k = Suc (i - w)..<Suc i. f k)"
    unfolding a b by simp
  then show ?thesis using True unfolding c by simp
next
  case False
  then have z: "i - w = 0" "i + 1 - w = 0" by simp_all
  have "(\<Sum>k = 0..<i. f k) + f i = (\<Sum>k = 0..<Suc i. f k)"
    by (rule sum.atLeastLessThan_Suc [symmetric]) simp
  with False show ?thesis unfolding z by simp
qed

lemma runningSum_exact:
  "runningSum (+) (-) arr w i = (\<Sum>k = i + 1 - w..<i + 1. pvalue (arr ! k))"
proof (induction i)
  case 0
  show ?case
    using window_sum_step [of w 0 "\<lambda>k. pvalue (arr ! k)"]
    by (simp add: sumStep_def Let_def)
next
  case (Suc i)
  have "runningSum (+) (-) arr w (Suc i)
      = (if Suc i \<ge> w
         then (\<Sum>k = Suc i - w..<Suc i. pvalue (arr ! k)) + pvalue (arr ! Suc i) - pvalue (arr ! (Suc i - w))
         else (\<Sum>k = Suc i - w..<Suc i. pvalue (arr ! k)) + pvalue (arr ! Suc i))"
    using Suc.IH by (simp add: sumStep_def Let_def)
  also have "\<dots> = (\<Sum>k = Suc i + 1 - w..<Suc i + 1. pvalue (arr ! k))"
    by (rule window_sum_step)
  finally show ?case .
qed

lemma recent_sum:
  fixes f :: "nat \<Rightarrow> real"
  shows "w \<le> i + 1 \<Longrightarrow> (\<Sum>k = i + 1 - w..<i + 1. f k) = (\<Sum>k<w. f (i - k))"
  by (rule sum.reindex_bij_witness [where i = "\<lambda>k. i - k" and j = "\<lambda>k. i - k"]) auto


lemma ulp_binade:
  "x \<noteq> 0 \<Longrightarrow> 2 powr of_int e \<le> \<bar>x\<bar> \<Longrightarrow> \<bar>x\<bar> < 2 powr (of_int e + 1)
   \<Longrightarrow> ulp x = 2 powr (of_int e - 52)"
  using floor_log_eq_powr_iff [of "\<bar>x\<bar>" 2 e] by (simp add: ulp_def)

lemma ulp_big: "ulp 10000000000000000 = 2" "ulp 10000000000000001 = 2"
  using ulp_binade [of 10000000000000000 53] ulp_binade [of 10000000000000001 53]
  by simp_all

lemma dbl_big: "dbl 10000000000000000 = 10000000000000000" "dbl 10000000000000001 = 10000000000000000"
  by (simp_all add: dbl_def ulp_big roundEven_def Let_def)

lemma dbl_zero: "dbl 0 = 0"
  by (simp add: dbl_def)

lemma runningSum_big: "runningSum dadd dsub bigThenOnes 2 2 = 0"
  by (simp add: numeral_2_eq_2 sumStep_def Let_def dadd_def dsub_def bigThenOnes_def pt_def
      dbl_big dbl_zero)


text \<open>
  C10, as stated, fails. On the series \<^verbatim>\<open>[1e16, 1, 1, 1]\<close> with the window 2 the running
  sum absorbs the first 1, so that taking \<^verbatim>\<open>1e16\<close> out again leaves 0: the value at
  index 2 is 0, where the mean of the two most recent inputs is 1.
\<close>

theorem sma_mean_counterexample:
  "pvalue (sma dadd dsub ddiv bigThenOnes 2 ! 2) = 0
   \<and> (pvalue (bigThenOnes ! 2) + pvalue (bigThenOnes ! 1)) / 2 = 1"
proof -
  have "sma dadd dsub ddiv bigThenOnes 2 ! 2 = smaPoint dadd dsub ddiv bigThenOnes 2 2"
    using sma_nth [of 2 bigThenOnes 2 dadd dsub ddiv] by (simp add: bigThenOnes_def)
  then have "pvalue (sma dadd dsub ddiv bigThenOnes 2 ! 2) = ddiv 0 2"
    by (simp add: smaPoint_def runningSum_big)
  then show ?thesis
    by (simp add: ddiv_def dbl_zero bigThenOnes_def pt_def)
qed

text \<open>
  C10, amended. The smoothed series has the length and the timestamps of its input. With
  \<open>w\<close> the window after \<^verbatim>\<open>Math.max(1, Math.floor(window))\<close>: for \<open>w \<le> 1\<close> the
  output is the input; at every index \<open>i < w - 1\<close> the value is the input value at \<open>i\<close>
  itself; at every index \<open>i \<ge> w - 1\<close> (for \<open>w > 1\<close>) it is the running sum divided by
  \<open>w\<close>, where the running sum starts at 0 and at each index takes in the input value and,
  from index \<open>w\<close> on, gives up the value \<open>w\<close> places back, in the arithmetic of the
  program. In exact arithmetic that value is the arithmetic mean of the \<open>w\<close> input
  values at \<open>i, i - 1, \<dots>, i - w + 1\<close>.
\<close>

theorem sma_running_sum:
  "length (sma fadd fsub fdiv arr window) = length arr
   \<and> map ptime (sma fadd fsub fdiv arr window) = map ptime arr
   \<and> (nat (max 1 \<lfloor>window\<rfloor>) \<le> 1 \<longrightarrow> sma fadd fsub fdiv arr window = arr)
   \<and> (\<forall>i<length arr.
         (1 < nat (max 1 \<lfloor>window\<rfloor>) \<and> nat (max 1 \<lfloor>window\<rfloor>) - 1 \<le> i \<longrightarrow>
            pvalue (sma fadd fsub fdiv arr window ! i)
              = fdiv (runningSum fadd fsub arr (nat (max 1 \<lfloor>window\<rfloor>)) i)
                  (real (nat (max 1 \<lfloor>window\<rfloor>))))
       \<and> (i < nat (max 1 \<lfloor>window\<rfloor>) - 1 \<longrightarrow>
            pvalue (sma fadd fsub fdiv arr window ! i) = pvalue (arr ! i))
       \<and> (nat (max 1 \<lfloor>window\<rfloor>) - 1 \<le> i \<longrightarrow>
            pvalue (sma (+) (-) (/) arr window ! i)
              = (\<Sum>k<nat (max 1 \<lfloor>window\<rfloor>). pvalue (arr ! (i - k)))
                  / real (nat (max 1 \<lfloor>window\<rfloor>))))"
proof -
  define w where "w = nat (max 1 \<lfloor>window\<rfloor>)"
  have w1: "1 \<le> w" by (simp add: w_def)
  have len: "length (sma f g h arr window) = length arr" for f g h
    by (simp add: sma_eq Let_def)
  have small: "w \<le> 1 \<Longrightarrow> sma f g h arr window = arr" for f g h
    by (simp add: sma_eq Let_def w_def)
  have nth: "sma f g h arr window ! i = smaPoint f g h arr w i"
    if "i < length arr" "1 < w" for f g h i
    using that sma_nth [of i arr window f g h] by (simp add: w_def)
  have tm: "map ptime (sma fadd fsub fdiv arr window) = map ptime arr"
  proof (rule nth_equalityI)
    show "length (map ptime (sma fadd fsub fdiv arr window)) = length (map ptime arr)"
      using len by simp
    fix i assume "i < length (map ptime (sma fadd fsub fdiv arr window))"
    then have i: "i < length arr" using len by simp
    show "map ptime (sma fadd fsub fdiv arr window) ! i = map ptime arr ! i"
    proof (cases "w \<le> 1")
      case True
      then show ?thesis by (simp add: small)
    next
      case False
      then show ?thesis using i len
        by (simp add: nth smaPoint_def)
    qed
  qed
  have run: "pvalue (sma fadd fsub fdiv arr window ! i) = fdiv (runningSum fadd fsub arr w i) (real w)"
    if "i < length arr" "1 < w" "w - 1 \<le> i" for i
    using that by (simp add: nth smaPoint_def)
  have raw: "pvalue (sma fadd fsub fdiv arr window ! i) = pvalue (arr ! i)"
    if "i < length arr" "i < w - 1" for i
  proof -
    from that have "1 < w" by simp
    then show ?thesis using that by (simp add: nth smaPoint_def)
  qed
  have mean: "pvalue (sma (+) (-) (/) arr window ! i) = (\<Sum>k<w. pvalue (arr ! (i - k))) / real w"
    if "i < length arr" "w - 1 \<le> i" for i
  proof (cases "w \<le> 1")
    case True
    with w1 have "w = 1" by simp
    then show ?thesis using small [of "(+)" "(-)" "(/)"] by simp
  next
    case False
    then have "pvalue (sma (+) (-) (/) arr window ! i)
        = (\<Sum>k = i + 1 - w..<i + 1. pvalue (arr ! k)) / real w"
      using that by (simp add: nth smaPoint_def runningSum_exact)
    also have "(\<Sum>k = i + 1 - w..<i + 1. pvalue (arr ! k)) = (\<Sum>k<w. pvalue (arr ! (i - k)))"
      by (rule recent_sum) (use that in simp)
    finally show ?thesis .
  qed
  show ?thesis
    unfolding w_def [symmetric] using len tm small run raw mean by blast
qed

theorem sma_running_sum_witness:
  "4 < length samplePoints \<and> 1 < nat (max 1 \<lfloor>3::real\<rfloor>) \<and> nat (max 1 \<lfloor>3::real\<rfloor>) - 1 \<le> 4
   \<and> pvalue (sma (+) (-) (/) samplePoints 3 ! 4) = 5
   \<and> pvalue (sma (+) (-) (/) samplePoints 3 ! 4) = runningSum (+) (-) samplePoints 3 4 / 3
   \<and> pvalue (sma (+) (-) (/) samplePoints 3 ! 1) = 2"
proof -
  have h: "4 < length samplePoints \<and> 1 < length samplePoints
      \<and> 1 < nat (max 1 \<lfloor>3::real\<rfloor>) \<and> nat (max 1 \<lfloor>3::real\<rfloor>) - 1 \<le> 4
      \<and> 1 < nat (max 1 \<lfloor>3::real\<rfloor>) - 1 + 0"
    by (simp add: samplePoints_def)
  have w: "nat (max 1 \<lfloor>3::real\<rfloor>) = 3" by simp
  note inst4 = sma_running_sum [of "(+)" "(-)" "(/)" samplePoints 3, THEN conjunct2, THEN conjunct2,
      THEN conjunct2, rule_format, of 4, unfolded w]
  note inst1 = sma_running_sum [of "(+)" "(-)" "(/)" samplePoints 3, THEN conjunct2, THEN conjunct2,
      THEN conjunct2, rule_format, of 1, unfolded w]
  have a: "pvalue (sma (+) (-) (/) samplePoints 3 ! 4) = runningSum (+) (-) samplePoints 3 4 / 3"
    using inst4 by (simp add: samplePoints_def)
  have b: "pvalue (sma (+) (-) (/) samplePoints 3 ! 4) = 5"
    using inst4 by (simp add: samplePoints_def pt_def lessThan_nat_numeral lessThan_Suc)
  have c: "pvalue (sma (+) (-) (/) samplePoints 3 ! 1) = 2"
    using inst1 by (simp add: samplePoints_def pt_def)
  show ?thesis using h a b c by blast
qed

subsection \<open>Snapping\<close>




lemma look_nonempty: "bs \<noteq> [] \<Longrightarrow> look bs \<noteq> []"
proof -
  assume "bs \<noteq> []"
  then have "0 < length bs" by simp
  then have "length bs - 120 < length bs" by arith
  then show ?thesis by (simp add: look_def)
qed






subsection \<open>Window and price of a line\<close>

lemma window_nonempty:
  "bs \<noteq> [] \<Longrightarrow>
     hi bs = Some (Max (high ` set (look bs)))
   \<and> lo bs = Some (Min (low ` set (look bs)))
   \<and> range_w bs = Some (Max (high ` set (look bs)) - Min (low ` set (look bs)))
   \<and> last_bar bs = Some (last bs)"
  using look_nonempty [of bs] by (simp add: hi_def lo_def range_w_def last_bar_def)

lemma window_empty: "range_w [] = None \<and> lo [] = None \<and> hi [] = None \<and> last_bar [] = None"
  by (simp add: hi_def lo_def range_w_def last_bar_def look_def)

lemma linePrice_None_iff: "linePrice line bs = None \<longleftrightarrow> price line = None \<and> bs = []"
proof (cases "bs = []")
  case True
  then show ?thesis
    by (simp add: linePrice_def getLinePrice_def window_empty split: option.splits)
next
  case False
  then show ?thesis
    using window_nonempty [OF False]
    by (simp add: linePrice_def getLinePrice_def split: option.splits)
qed

text \<open>
  C4. \<open>getLinePrice\<close> returns an explicit price unchanged; without one, and with the
  range and the low of the window at hand, it returns \<open>low + ratio * range\<close> for a line
  that carries a ratio (every line of \<^verbatim>\<open>initFibLines\<close> does); without a range it
  returns the close of the last bar, if there is one. The effect passes the window of the
  last 120 bars: with at least one bar the high is the greatest of their highs, the low
  the least of their lows and the range their difference; with no bar there is neither
  range nor last bar. So the price of a line is \<^verbatim>\<open>null\<close> exactly when the line has no
  explicit price and there is no bar.
\<close>

theorem price_level_resolver:
  "(price line = Some p \<longrightarrow> getLinePrice line rg l lst = Some p)
   \<and> (price line = None \<and> rg = Some rgv \<and> l = Some lv \<and> ratio line = Some r \<longrightarrow>
        getLinePrice line rg l lst = Some (lv + r * rgv))
   \<and> (price line = None \<and> rg = None \<longrightarrow> getLinePrice line rg l lst = map_option close lst)
   \<and> linePrice line bs = getLinePrice line (range_w bs) (lo bs) (last_bar bs)
   \<and> look bs = drop (length bs - 120) bs
   \<and> (bs \<noteq> [] \<longrightarrow>
        hi bs = Some (Max (high ` set (look bs)))
      \<and> lo bs = Some (Min (low ` set (look bs)))
      \<and> range_w bs = Some (Max (high ` set (look bs)) - Min (low ` set (look bs)))
      \<and> last_bar bs = Some (last bs))
   \<and> (bs = [] \<longrightarrow> range_w bs = None \<and> last_bar bs = None)
   \<and> (price line = None \<and> ratio line = Some r \<and> bs \<noteq> [] \<longrightarrow>
        linePrice line bs
          = Some (Min (low ` set (look bs))
                  + r * (Max (high ` set (look bs)) - Min (low ` set (look bs)))))
   \<and> (linePrice line bs = None \<longleftrightarrow> price line = None \<and> bs = [])"
proof (intro conjI impI)
  show "linePrice line bs = None \<longleftrightarrow> price line = None \<and> bs = []"
    by (rule linePrice_None_iff)
  show "look bs = drop (length bs - 120) bs" by (simp add: look_def)
  show "linePrice line bs = getLinePrice line (range_w bs) (lo bs) (last_bar bs)"
    by (simp add: linePrice_def)
next
  assume "price line = Some p"
  then show "getLinePrice line rg l lst = Some p" by (simp add: getLinePrice_def)
next
  assume "price line = None \<and> rg = Some rgv \<and> l = Some lv \<and> ratio line = Some r"
  then show "getLinePrice line rg l lst = Some (lv + r * rgv)" by (simp add: getLinePrice_def)
next
  assume "price line = None \<and> rg = None"
  then show "getLinePrice line rg l lst = map_option close lst" by (simp add: getLinePrice_def)
next
  assume ne: "bs \<noteq> []"
  show "hi bs = Some (Max (high ` set (look bs)))"
    and "lo bs = Some (Min (low ` set (look bs)))"
    and "range_w bs = Some (Max (high ` set (look bs)) - Min (low ` set (look bs)))"
    and "last_bar bs = Some (last bs)"
    using window_nonempty [OF ne] by simp_all
next
  assume "bs = []"
  then show "range_w bs = None" and "last_bar bs = None" by (simp_all add: window_empty)
next
  assume a: "price line = None \<and> ratio line = Some r \<and> bs \<noteq> []"
  then show "linePrice line bs
          = Some (Min (low ` set (look bs))
                  + r * (Max (high ` set (look bs)) - Min (low ` set (look bs))))"
    using window_nonempty [of bs] by (simp add: linePrice_def getLinePrice_def)
qed

theorem price_level_resolver_witness:
  "price (lvl ''b'' (Some 3)) = Some 3
   \<and> price (lvl ''a'' None) = None \<and> ratio (lvl ''a'' None) = Some 0.5 \<and> sampleBars \<noteq> []
   \<and> getLinePrice (lvl ''b'' (Some 3)) (range_w sampleBars) (lo sampleBars) (last_bar sampleBars) = Some 3
   \<and> linePrice (lvl ''a'' None) sampleBars = Some 105
   \<and> linePrice (lvl ''a'' None) [] = None
   \<and> getLinePrice (lvl ''a'' None) None None (Some (flatBar 60 110)) = Some 110"
proof -
  have w: "Min (low ` set (look sampleBars)) = 100 \<and> Max (high ` set (look sampleBars)) = 110"
    by (simp add: sampleBars_def look_def flatBar_def)
  have h: "price (lvl ''b'' (Some 3)) = Some 3 \<and> price (lvl ''a'' None) = None
      \<and> ratio (lvl ''a'' None) = Some 0.5 \<and> sampleBars \<noteq> []"
    by (simp add: lvl_def sampleBars_def)
  have a: "getLinePrice (lvl ''b'' (Some 3)) (range_w sampleBars) (lo sampleBars) (last_bar sampleBars) = Some 3"
    using h price_level_resolver [of "lvl ''b'' (Some 3)" 3 "range_w sampleBars" "lo sampleBars"
        "last_bar sampleBars" 0 0 0 "[]"]
    by blast
  have "linePrice (lvl ''a'' None) sampleBars
      = Some (Min (low ` set (look sampleBars))
          + 0.5 * (Max (high ` set (look sampleBars)) - Min (low ` set (look sampleBars))))"
    using h price_level_resolver [of "lvl ''a'' None" 0 None None None 0 0 "0.5" sampleBars]
    by blast
  then have b: "linePrice (lvl ''a'' None) sampleBars = Some 105"
    using w by simp
  have c: "linePrice (lvl ''a'' None) [] = None"
    using h price_level_resolver [of "lvl ''a'' None" 0 None None None 0 0 "0.5" "[]"]
    by blast
  have "getLinePrice (lvl ''a'' None) None None (Some (flatBar 60 110))
      = map_option close (Some (flatBar 60 110))"
    using h price_level_resolver [of "lvl ''a'' None" 0 None None "Some (flatBar 60 110)" 0 0 "0.5" "[]"]
    by blast
  then have d: "getLinePrice (lvl ''a'' None) None None (Some (flatBar 60 110)) = Some 110"
    by (simp add: flatBar_def)
  show ?thesis
    using h a b c d by blast
qed


subsection \<open>Hydration\<close>

lemma fillLine_linePrice:
  "fillLine isFinite line bs = (case price line of
        None \<Rightarrow> (case linePrice line bs of
                   Some p \<Rightarrow> if isFinite p then line\<lparr>price := Some p\<rparr> else line
                 | None \<Rightarrow> line)
      | Some p \<Rightarrow> line)"
  by (simp add: fillLine_def linePrice_def split: option.splits)

lemma fillLine_override: "price line \<noteq> None \<Longrightarrow> fillLine isFinite line bs = line"
  by (auto simp add: fillLine_linePrice)

lemma fillLine_changed:
  "fillLine isFinite line bs \<noteq> line \<Longrightarrow>
     price line = None
     \<and> (\<exists>p. linePrice line bs = Some p \<and> isFinite p
            \<and> fillLine isFinite line bs = line\<lparr>price := Some p\<rparr>)"
  by (auto simp add: fillLine_linePrice split: option.splits if_splits)

lemma price_fillLine_changed:
  "price (fillLine isFinite line bs) \<noteq> price line
     \<longleftrightarrow> price line = None \<and> (\<exists>p. linePrice line bs = Some p \<and> isFinite p)"
  by (auto simp add: fillLine_linePrice split: option.splits)

lemma fillLine_idem:
  "fillLine isFinite (fillLine isFinite line bs) bs = fillLine isFinite line bs"
  by (auto simp add: fillLine_def getLinePrice_def split: option.splits)

lemma changed_iff:
  "list_ex (\<lambda>(a, old). price a \<noteq> price old) (zip (map f xs) xs)
     \<longleftrightarrow> (\<exists>x\<in>set xs. price (f x) \<noteq> price x)"
  by (induction xs) auto

lemma hydrate_Some:
  "hydrate isFinite isFunction fibLines bs = Some filled \<Longrightarrow>
     filled = map (\<lambda>line. fillLine isFinite line bs) fibLines
     \<and> (\<exists>x\<in>set fibLines. price (fillLine isFinite x bs) \<noteq> price x)"
  by (auto simp add: hydrate_def Let_def changed_iff split: if_splits)

lemma hydrate_unchanged:
  "(\<forall>x\<in>set xs. price (fillLine isFinite x bs) = price x)
   \<Longrightarrow> hydrate isFinite isFunction xs bs = None"
  by (simp add: hydrate_def Let_def changed_iff)

lemma hydrate_again:
  "hydrate isFinite isFunction (map (\<lambda>line. fillLine isFinite line bs) fibLines) bs = None"
  by (rule hydrate_unchanged) (auto simp add: fillLine_idem)

lemma linePrice_no_bars: "linePrice line [] = price line"
  by (simp add: linePrice_def getLinePrice_def window_empty split: option.splits)

lemma hydrate_called_iff:
  "hydrate isFinite isFunction fibLines bs \<noteq> None
     \<longleftrightarrow> isFunction
         \<and> (\<exists>line\<in>set fibLines. price line = None
               \<and> (\<exists>p. linePrice line bs = Some p \<and> isFinite p))"
proof (cases "bs = []")
  case True
  then show ?thesis
    by (auto simp add: hydrate_def Let_def changed_iff price_fillLine_changed window_empty
        linePrice_no_bars)
next
  case False
  then have "last_bar bs \<noteq> None" by (simp add: last_bar_def)
  then show ?thesis
    by (auto simp add: hydrate_def Let_def changed_iff price_fillLine_changed)
qed

text \<open>
  C5. When the effect calls \<^verbatim>\<open>onFibLinesUpdate\<close>, the lines it passes are as many as
  before; a line with a stored price is passed unchanged, and a line that differs from
  the stored one had no stored price and differs only in carrying its computed price,
  which is not \<^verbatim>\<open>null\<close> and is finite; at least one price has changed; and running the
  step again on the lines passed makes no call. The call is made exactly when the
  callback is a function and some line without a stored price has a computed price that
  is finite, once per run of the effect.
\<close>

theorem hydration_preserves_overrides:
  "(\<forall>filled. hydrate isFinite isFunction fibLines bs = Some filled \<longrightarrow>
       length filled = length fibLines
     \<and> (\<forall>i<length fibLines.
           (price (fibLines ! i) \<noteq> None \<longrightarrow> filled ! i = fibLines ! i)
         \<and> (filled ! i \<noteq> fibLines ! i \<longrightarrow>
              price (fibLines ! i) = None
              \<and> (\<exists>p. linePrice (fibLines ! i) bs = Some p \<and> isFinite p
                     \<and> filled ! i = (fibLines ! i)\<lparr>price := Some p\<rparr>)))
     \<and> (\<exists>i<length fibLines. price (filled ! i) \<noteq> price (fibLines ! i))
     \<and> hydrate isFinite isFunction filled bs = None)
   \<and> (hydrate isFinite isFunction fibLines bs \<noteq> None
        \<longleftrightarrow> isFunction
            \<and> (\<exists>line\<in>set fibLines. price line = None
                  \<and> (\<exists>p. linePrice line bs = Some p \<and> isFinite p)))"
proof (intro conjI allI impI)
  show "hydrate isFinite isFunction fibLines bs \<noteq> None
        \<longleftrightarrow> isFunction
            \<and> (\<exists>line\<in>set fibLines. price line = None
                  \<and> (\<exists>p. linePrice line bs = Some p \<and> isFinite p))"
    by (rule hydrate_called_iff)
next
  fix filled assume "hydrate isFinite isFunction fibLines bs = Some filled"
  from hydrate_Some [OF this]
  have f: "filled = map (\<lambda>line. fillLine isFinite line bs) fibLines"
    and ch: "\<exists>x\<in>set fibLines. price (fillLine isFinite x bs) \<noteq> price x" by simp_all
  show "length filled = length fibLines" using f by simp
  show "hydrate isFinite isFunction filled bs = None" unfolding f by (rule hydrate_again)
  from ch obtain x where x: "x \<in> set fibLines" "price (fillLine isFinite x bs) \<noteq> price x"
    by blast
  then obtain i where "i < length fibLines" "fibLines ! i = x" by (auto simp add: in_set_conv_nth)
  then show "\<exists>i<length fibLines. price (filled ! i) \<noteq> price (fibLines ! i)"
    using x(2) f by auto
  {
    fix i assume i: "i < length fibLines"
    have nth: "filled ! i = fillLine isFinite (fibLines ! i) bs" using i f by simp
    {
      assume "price (fibLines ! i) \<noteq> None"
      then show "filled ! i = fibLines ! i" unfolding nth by (rule fillLine_override)
    }
    {
      assume d: "filled ! i \<noteq> fibLines ! i"
      then show "price (fibLines ! i) = None"
        using fillLine_changed [of isFinite "fibLines ! i" bs] unfolding nth by blast
      from d show "\<exists>p. linePrice (fibLines ! i) bs = Some p \<and> isFinite p
                     \<and> filled ! i = (fibLines ! i)\<lparr>price := Some p\<rparr>"
        using fillLine_changed [of isFinite "fibLines ! i" bs] unfolding nth by blast
    }
  }
qed

lemma linePrice_hugeLine: "linePrice hugeLine sampleBars = Some (100 + 10 ^ 308 * 10)"
  by (simp add: linePrice_def getLinePrice_def range_w_def hi_def lo_def look_def last_bar_def
      hugeLine_def sampleBars_def lvl_def flatBar_def)

theorem hydration_preserves_overrides_witness:
  "hydrate belowOverflow True sampleLines sampleBars
     = Some [lvl ''a'' (Some 105), lvl ''b'' (Some 3)]
   \<and> 1 < length sampleLines \<and> price (sampleLines ! 1) \<noteq> None
   \<and> [lvl ''a'' (Some 105), lvl ''b'' (Some 3)] ! 1 = sampleLines ! 1
   \<and> hydrate belowOverflow True [lvl ''a'' (Some 105), lvl ''b'' (Some 3)] sampleBars = None
   \<and> price hugeLine = None \<and> linePrice hugeLine sampleBars = Some (100 + 10 ^ 308 * 10)
   \<and> \<not> belowOverflow (100 + 10 ^ 308 * 10)
   \<and> hydrate belowOverflow True [hugeLine] sampleBars = None"
proof -
  have ev: "hydrate belowOverflow True sampleLines sampleBars
      = Some [lvl ''a'' (Some 105), lvl ''b'' (Some 3)]"
    by (simp add: hydrate_def fillLine_def getLinePrice_def range_w_def hi_def lo_def look_def
        last_bar_def sampleLines_def sampleBars_def lvl_def flatBar_def belowOverflow_def)
  have h: "1 < length sampleLines \<and> price (sampleLines ! 1) \<noteq> None"
    by (simp add: sampleLines_def lvl_def)
  note inst = hydration_preserves_overrides [of belowOverflow True sampleLines sampleBars,
      THEN conjunct1, rule_format, OF ev]
  have a: "[lvl ''a'' (Some 105), lvl ''b'' (Some 3)] ! 1 = sampleLines ! 1"
    using inst h by blast
  have b: "hydrate belowOverflow True [lvl ''a'' (Some 105), lvl ''b'' (Some 3)] sampleBars = None"
    using inst by blast
  have c: "price hugeLine = None" by (simp add: hugeLine_def lvl_def)
  have d: "\<not> belowOverflow (100 + 10 ^ 308 * 10)" by (simp add: belowOverflow_def)
  have "\<not> (\<exists>line\<in>set [hugeLine]. price line = None
          \<and> (\<exists>p. linePrice line sampleBars = Some p \<and> belowOverflow p))"
    using d by (simp add: linePrice_hugeLine)
  then have e: "hydrate belowOverflow True [hugeLine] sampleBars = None"
    using hydration_preserves_overrides [of belowOverflow True "[hugeLine]" sampleBars] by blast
  show ?thesis using ev h a b c d e linePrice_hugeLine by blast
qed

subsection \<open>Alerts\<close>

lemma bars_closes:
  "bars closes1 = [flatBar 0 110]"
  "bars closes2 = [flatBar 0 110, flatBar 60 108]"
  "bars closes3 = [flatBar 0 110, flatBar 60 108, flatBar 120 112]"
  "lastPrice closes1 = Some 110" "lastPrice closes2 = Some 108" "lastPrice closes3 = Some 112"
  by (simp_all add: closes1_def closes2_def closes3_def onmessage_def pushBar_def emptyChart_def
      flatBar_def)

lemma rsi_closes: "rsi closes1 = Some 65" "rsi closes2 = Some 65" "rsi closes3 = Some 65"
  by (simp_all add: closes1_def closes2_def closes3_def onmessage_def lastValue_def)

lemma crossed_iff:
  "crossed pc (Some c) lp \<longleftrightarrow> (\<exists>p. pc = Some p \<and> (p < lp) \<noteq> (c < lp))"
  by (cases pc) (auto simp add: crossed_def Let_def)

lemma levelAlert_Some_iff:
  "levelAlert symb tf ha st line \<noteq> None \<longleftrightarrow>
     enabled line \<and> alertEnabled line
     \<and> (\<exists>lp rv thr. price line = Some lp \<and> (if ha then haRsi st else rsi st) = Some rv
           \<and> rsiThreshold line = Some thr
           \<and> crossed (prevClose (bars st)) (lastPrice st) lp \<and> rsiOk (rsiOp line) rv thr)"
  by (auto simp add: levelAlert_def Let_def)

lemma alertEffect_single:
  "alertEffect symb tf ha st [line]
     = (if bars st = [] then [] else case levelAlert symb tf ha st line of None \<Rightarrow> [] | Some m \<Rightarrow> [m])"
  by (simp add: alertEffect_def List.map_filter_simps split: option.splits)

lemma rsiOk_simps:
  "rsiOk ''>='' rv thr \<longleftrightarrow> rv \<ge> thr"
  "rsiOk ''<='' rv thr \<longleftrightarrow> rv \<le> thr"
  "rsiOk [] rv thr \<longleftrightarrow> rv \<ge> thr"
  by (simp_all add: rsiOk_def)

lemma levelAlert_fires:
  assumes "enabled line" "alertEnabled line" "price line = Some lp"
    "(if ha then haRsi st else rsi st) = Some rv" "rsiThreshold line = Some thr"
    "crossed (prevClose (bars st)) (lastPrice st) lp"
  shows "levelAlert symb tf ha st line =
     (if rsiOk (rsiOp line) rv thr
      then Some \<lparr>msg_symbol = symb, msg_timeframe = tf,
             msg_ratio = (case ratio line of Some r \<Rightarrow> r | None \<Rightarrow> 0),
             msg_price = lp, msg_ha = ha, msg_rsi = rv\<rparr>
      else None)"
  using assms by (simp add: levelAlert_def Let_def)

text \<open>
  C2. For an enabled line with alerts on and the price \<open>lp\<close>, on a tick with the current
  close \<open>c\<close> on which an RSI value and a threshold are present and the gate passes, the
  effect sends a message for the line if and only if the buffer has a bar before the last
  one and its close \<open>pc\<close> satisfies \<open>(pc < lp) \<noteq> (c < lp)\<close>. In general the effect sends a
  message for a line exactly when the line qualifies, the crossing test holds and the
  gate passes; the crossing test is the condition just stated, so it fails when there is
  no previous close and when the two closes are on the same side of the line. For the
  closes 110, 108, 112, each with an RSI of 65, and the line at 109 with the gate
  \<^verbatim>\<open>>= 60\<close>, nothing is sent on the first tick and a message is sent on the second and
  on the third.
\<close>

theorem crossing_edge_triggered:
  "(enabled line \<and> alertEnabled line \<and> price line = Some lp \<and> lastPrice st = Some c
      \<and> (if ha then haRsi st else rsi st) = Some rv \<and> rsiThreshold line = Some thr
      \<and> rsiOk (rsiOp line) rv thr \<longrightarrow>
        (alertEffect symb tf ha st [line] \<noteq> []
           \<longleftrightarrow> 1 < length (bars st)
               \<and> (close (bars st ! (length (bars st) - 2)) < lp) \<noteq> (c < lp)))
   \<and> (levelAlert symb tf ha st line \<noteq> None \<longleftrightarrow>
        enabled line \<and> alertEnabled line
        \<and> (\<exists>p rv thr. price line = Some p \<and> (if ha then haRsi st else rsi st) = Some rv
              \<and> rsiThreshold line = Some thr
              \<and> crossed (prevClose (bars st)) (lastPrice st) p \<and> rsiOk (rsiOp line) rv thr))
   \<and> (crossed (prevClose bs) (Some c) lp
        \<longleftrightarrow> 1 < length bs \<and> (close (bs ! (length bs - 2)) < lp) \<noteq> (c < lp))
   \<and> (length bs \<le> 1 \<longrightarrow> \<not> crossed (prevClose bs) (Some c) lp)
   \<and> ((pc < lp) = (c < lp) \<longrightarrow> \<not> crossed (Some pc) (Some c) lp)
   \<and> \<not> crossed (prevClose (bars closes1)) (lastPrice closes1) 109
   \<and> crossed (prevClose (bars closes2)) (lastPrice closes2) 109
   \<and> crossed (prevClose (bars closes3)) (lastPrice closes3) 109
   \<and> alertEffect ''XRPUSDT'' ''1m'' False closes1 [lvl ''a'' (Some 109)] = []
   \<and> alertEffect ''XRPUSDT'' ''1m'' False closes2 [lvl ''a'' (Some 109)] \<noteq> []
   \<and> alertEffect ''XRPUSDT'' ''1m'' False closes3 [lvl ''a'' (Some 109)] \<noteq> []"
proof (intro conjI impI)
  assume a: "enabled line \<and> alertEnabled line \<and> price line = Some lp \<and> lastPrice st = Some c
      \<and> (if ha then haRsi st else rsi st) = Some rv \<and> rsiThreshold line = Some thr
      \<and> rsiOk (rsiOp line) rv thr"
  have "alertEffect symb tf ha st [line] \<noteq> []
      \<longleftrightarrow> bars st \<noteq> [] \<and> levelAlert symb tf ha st line \<noteq> None"
    by (simp add: alertEffect_single split: option.splits)
  also have "\<dots> \<longleftrightarrow> bars st \<noteq> [] \<and> crossed (prevClose (bars st)) (Some c) lp"
    unfolding levelAlert_Some_iff using a by auto
  also have "\<dots> \<longleftrightarrow> 1 < length (bars st)
               \<and> (close (bars st ! (length (bars st) - 2)) < lp) \<noteq> (c < lp)"
    by (auto simp add: crossed_iff prevClose_def)
  finally show "alertEffect symb tf ha st [line] \<noteq> []
           \<longleftrightarrow> 1 < length (bars st)
               \<and> (close (bars st ! (length (bars st) - 2)) < lp) \<noteq> (c < lp)" .
next
  show "levelAlert symb tf ha st line \<noteq> None \<longleftrightarrow>
        enabled line \<and> alertEnabled line
        \<and> (\<exists>p rv thr. price line = Some p \<and> (if ha then haRsi st else rsi st) = Some rv
              \<and> rsiThreshold line = Some thr
              \<and> crossed (prevClose (bars st)) (lastPrice st) p \<and> rsiOk (rsiOp line) rv thr)"
    by (rule levelAlert_Some_iff)
  show "crossed (prevClose bs) (Some c) lp
      \<longleftrightarrow> 1 < length bs \<and> (close (bs ! (length bs - 2)) < lp) \<noteq> (c < lp)"
    by (simp add: crossed_iff prevClose_def)
  show "\<not> crossed (prevClose bs) (Some c) lp" if "length bs \<le> 1"
    using that by (simp add: crossed_iff prevClose_def)
  show "\<not> crossed (Some pc) (Some c) lp" if "(pc < lp) = (c < lp)"
    using that by (simp add: crossed_iff)
  show "\<not> crossed (prevClose (bars closes1)) (lastPrice closes1) 109"
    by (simp add: bars_closes crossed_iff prevClose_def)
  show "crossed (prevClose (bars closes2)) (lastPrice closes2) 109"
    by (simp add: bars_closes crossed_iff prevClose_def flatBar_def)
  show "crossed (prevClose (bars closes3)) (lastPrice closes3) 109"
    by (simp add: bars_closes crossed_iff prevClose_def flatBar_def)
  show "alertEffect ''XRPUSDT'' ''1m'' False closes1 [lvl ''a'' (Some 109)] = []"
    by (simp add: alertEffect_single levelAlert_def bars_closes rsi_closes crossed_iff
        prevClose_def lvl_def Let_def)
  show "alertEffect ''XRPUSDT'' ''1m'' False closes2 [lvl ''a'' (Some 109)] \<noteq> []"
    by (simp add: alertEffect_single levelAlert_def bars_closes rsi_closes crossed_iff
        prevClose_def rsiOk_simps lvl_def flatBar_def Let_def)
  show "alertEffect ''XRPUSDT'' ''1m'' False closes3 [lvl ''a'' (Some 109)] \<noteq> []"
    by (simp add: alertEffect_single levelAlert_def bars_closes rsi_closes crossed_iff
        prevClose_def rsiOk_simps lvl_def flatBar_def Let_def)
qed

theorem crossing_edge_triggered_witness:
  "enabled (lvl ''a'' (Some 109)) \<and> alertEnabled (lvl ''a'' (Some 109))
   \<and> price (lvl ''a'' (Some 109)) = Some 109 \<and> lastPrice closes2 = Some 108
   \<and> rsi closes2 = Some 65 \<and> rsiThreshold (lvl ''a'' (Some 109)) = Some 60
   \<and> rsiOk (rsiOp (lvl ''a'' (Some 109))) 65 60
   \<and> 1 < length (bars closes2)
   \<and> (close (bars closes2 ! (length (bars closes2) - 2)) < 109) \<noteq> ((108::real) < 109)
   \<and> alertEffect ''XRPUSDT'' ''1m'' False closes2 [lvl ''a'' (Some 109)] \<noteq> []
   \<and> length (bars closes1) \<le> 1
   \<and> \<not> crossed (prevClose (bars closes1)) (Some 110) 109
   \<and> ((110::real) < 109) = ((112::real) < 109)
   \<and> \<not> crossed (Some 110) (Some 112) 109"
proof -
  have l: "enabled (lvl ''a'' (Some 109)) \<and> alertEnabled (lvl ''a'' (Some 109))
      \<and> price (lvl ''a'' (Some 109)) = Some 109
      \<and> rsiThreshold (lvl ''a'' (Some 109)) = Some 60
      \<and> rsiOk (rsiOp (lvl ''a'' (Some 109))) 65 60"
    by (simp add: lvl_def rsiOk_simps)
  have s2: "lastPrice closes2 = Some 108 \<and> rsi closes2 = Some 65
      \<and> (if False then haRsi closes2 else rsi closes2) = Some 65"
    by (simp add: bars_closes rsi_closes)
  have x: "1 < length (bars closes2)
      \<and> (close (bars closes2 ! (length (bars closes2) - 2)) < 109) \<noteq> ((108::real) < 109)"
    by (simp add: bars_closes flatBar_def)
  have h: "length (bars closes1) \<le> 1 \<and> ((110::real) < 109) = ((112::real) < 109)"
    by (simp add: bars_closes)
  have a: "alertEffect ''XRPUSDT'' ''1m'' False closes2 [lvl ''a'' (Some 109)] \<noteq> []"
    using l s2 x
      crossing_edge_triggered [of "lvl ''a'' (Some 109)" 109 closes2 108 False 65 60
        "''XRPUSDT''" "''1m''" "[]" 0]
    by blast
  have b: "\<not> crossed (prevClose (bars closes1)) (Some 110) 109"
    using h crossing_edge_triggered [of "lvl ''a'' (Some 109)" 109 closes1 110 False 65 60
        "''XRPUSDT''" "''1m''" "bars closes1" 0]
    by blast
  have c: "\<not> crossed (Some 110) (Some 112) 109"
    using h crossing_edge_triggered [of "lvl ''a'' (Some 109)" 109 closes1 112 False 65 60
        "''XRPUSDT''" "''1m''" "[]" 110]
    by blast
  show ?thesis using l s2 x h a b c by blast
qed

text \<open>
  C3. For an enabled line with alerts on, a price, an RSI value \<open>rv\<close> and a threshold
  \<open>thr\<close>, on a tick whose crossing test holds, the effect sends a message if and only if
  the gate holds, and then exactly the one message of that line. The gate is \<open>rv \<ge> thr\<close>
  for the operator \<^verbatim>\<open>">="\<close> (and for a missing operator) and \<open>rv \<le> thr\<close> for \<^verbatim>\<open>"<="\<close>;
  with \<^verbatim>\<open>">="\<close> and the threshold 60 it holds for 65 and fails for 55.
\<close>

theorem rsi_gate:
  "(enabled line \<and> alertEnabled line \<and> price line = Some lp \<and> bars st \<noteq> []
      \<and> (if ha then haRsi st else rsi st) = Some rv \<and> rsiThreshold line = Some thr
      \<and> crossed (prevClose (bars st)) (lastPrice st) lp \<longrightarrow>
        (alertEffect symb tf ha st [line] \<noteq> [] \<longleftrightarrow> rsiOk (rsiOp line) rv thr)
      \<and> (rsiOk (rsiOp line) rv thr \<longrightarrow>
           alertEffect symb tf ha st [line]
             = [\<lparr>msg_symbol = symb, msg_timeframe = tf,
                  msg_ratio = (case ratio line of Some r \<Rightarrow> r | None \<Rightarrow> 0),
                  msg_price = lp, msg_ha = ha, msg_rsi = rv\<rparr>]))
   \<and> (rsiOk ''>='' rv thr \<longleftrightarrow> rv \<ge> thr)
   \<and> (rsiOk ''<='' rv thr \<longleftrightarrow> rv \<le> thr)
   \<and> (rsiOk [] rv thr \<longleftrightarrow> rv \<ge> thr)
   \<and> rsiOk ''>='' 65 60 \<and> \<not> rsiOk ''>='' 55 60"
proof (intro conjI impI)
  assume a: "enabled line \<and> alertEnabled line \<and> price line = Some lp \<and> bars st \<noteq> []
      \<and> (if ha then haRsi st else rsi st) = Some rv \<and> rsiThreshold line = Some thr
      \<and> crossed (prevClose (bars st)) (lastPrice st) lp"
  then have la: "levelAlert symb tf ha st line =
     (if rsiOk (rsiOp line) rv thr
      then Some \<lparr>msg_symbol = symb, msg_timeframe = tf,
             msg_ratio = (case ratio line of Some r \<Rightarrow> r | None \<Rightarrow> 0),
             msg_price = lp, msg_ha = ha, msg_rsi = rv\<rparr>
      else None)"
    by (intro levelAlert_fires) simp_all
  show "alertEffect symb tf ha st [line] \<noteq> [] \<longleftrightarrow> rsiOk (rsiOp line) rv thr"
    using a by (simp add: alertEffect_single la)
  show "alertEffect symb tf ha st [line]
             = [\<lparr>msg_symbol = symb, msg_timeframe = tf,
                  msg_ratio = (case ratio line of Some r \<Rightarrow> r | None \<Rightarrow> 0),
                  msg_price = lp, msg_ha = ha, msg_rsi = rv\<rparr>]"
    if "rsiOk (rsiOp line) rv thr"
    using a that by (simp add: alertEffect_single la)
qed (simp_all add: rsiOk_simps)

lemma gate_states:
  "bars gate65 = [flatBar 0 110, flatBar 60 108]" "lastPrice gate65 = Some 108" "rsi gate65 = Some 65"
  "bars gate55 = [flatBar 0 110, flatBar 60 108]" "lastPrice gate55 = Some 108" "rsi gate55 = Some 55"
  by (simp_all add: gate65_def gate55_def onmessage_def pushBar_def bars_closes lastValue_def flatBar_def)

theorem rsi_gate_witness:
  "enabled (lvl ''a'' (Some 109)) \<and> alertEnabled (lvl ''a'' (Some 109))
   \<and> price (lvl ''a'' (Some 109)) = Some 109 \<and> bars gate65 \<noteq> [] \<and> rsi gate65 = Some 65
   \<and> rsiThreshold (lvl ''a'' (Some 109)) = Some 60
   \<and> crossed (prevClose (bars gate65)) (lastPrice gate65) 109
   \<and> rsiOk (rsiOp (lvl ''a'' (Some 109))) 65 60
   \<and> alertEffect ''XRPUSDT'' ''1m'' False gate65 [lvl ''a'' (Some 109)]
       = [\<lparr>msg_symbol = ''XRPUSDT'', msg_timeframe = ''1m'', msg_ratio = 0.5,
            msg_price = 109, msg_ha = False, msg_rsi = 65\<rparr>]
   \<and> alertEffect ''XRPUSDT'' ''1m'' False gate55 [lvl ''a'' (Some 109)] = []"
proof -
  have x65: "crossed (prevClose (bars gate65)) (lastPrice gate65) 109"
    and x55: "crossed (prevClose (bars gate55)) (lastPrice gate55) 109"
    by (simp_all add: gate_states crossed_iff prevClose_def flatBar_def)
  have l: "enabled (lvl ''a'' (Some 109)) \<and> alertEnabled (lvl ''a'' (Some 109))
      \<and> price (lvl ''a'' (Some 109)) = Some 109
      \<and> rsiThreshold (lvl ''a'' (Some 109)) = Some 60
      \<and> rsiOp (lvl ''a'' (Some 109)) = ''>=''
      \<and> ratio (lvl ''a'' (Some 109)) = Some 0.5"
    by (simp add: lvl_def)
  have ok: "rsiOk (rsiOp (lvl ''a'' (Some 109))) 65 60"
    and no: "\<not> rsiOk (rsiOp (lvl ''a'' (Some 109))) 55 60"
    using l by (simp_all add: rsiOk_simps)
  have h65: "bars gate65 \<noteq> [] \<and> (if False then haRsi gate65 else rsi gate65) = Some 65"
    and h55: "bars gate55 \<noteq> [] \<and> (if False then haRsi gate55 else rsi gate55) = Some 55"
    by (simp_all add: gate_states)
  have "alertEffect ''XRPUSDT'' ''1m'' False gate65 [lvl ''a'' (Some 109)]
       = [\<lparr>msg_symbol = ''XRPUSDT'', msg_timeframe = ''1m'',
            msg_ratio = (case ratio (lvl ''a'' (Some 109)) of Some r \<Rightarrow> r | None \<Rightarrow> 0),
            msg_price = 109, msg_ha = False, msg_rsi = 65\<rparr>]"
    using l h65 x65 ok
      rsi_gate [of "lvl ''a'' (Some 109)" 109 gate65 False 65 60 "''XRPUSDT''" "''1m''"]
    by blast
  then have a: "alertEffect ''XRPUSDT'' ''1m'' False gate65 [lvl ''a'' (Some 109)]
       = [\<lparr>msg_symbol = ''XRPUSDT'', msg_timeframe = ''1m'', msg_ratio = 0.5,
            msg_price = 109, msg_ha = False, msg_rsi = 65\<rparr>]"
    using l by simp
  have b: "alertEffect ''XRPUSDT'' ''1m'' False gate55 [lvl ''a'' (Some 109)] = []"
    using l h55 x55 no
      rsi_gate [of "lvl ''a'' (Some 109)" 109 gate55 False 55 60 "''XRPUSDT''" "''1m''"]
    by blast
  have r: "rsi gate65 = Some 65" by (simp add: gate_states)
  show ?thesis using l h65 x65 ok a b r by blast
qed

text \<open>
  C8. The event built for a message is flagged delivered if and only if the fetch gave a
  response whose \<^verbatim>\<open>ok\<close> flag is set, whatever parsing its body does; it is not flagged
  on a response that is not ok nor on a rejected fetch. Whatever the outcome, the event
  carries the message and is pushed to the front of the feed.
\<close>

theorem delivery_status:
  "(delivered (sendAlert now res m) \<longleftrightarrow> (\<exists>jsonOk. res = Response True jsonOk))
   \<and> (res = Rejected \<longrightarrow> \<not> delivered (sendAlert now res m))
   \<and> (res = Response False jsonOk \<longrightarrow> \<not> delivered (sendAlert now res m))
   \<and> message (sendAlert now res m) = m
   \<and> ts (sendAlert now res m) = now
   \<and> onAlert now res m feed = sendAlert now res m # take 199 feed
   \<and> hd (onAlert now res m feed) = sendAlert now res m
   \<and> sendAlert now res m \<in> set (onAlert now res m feed)"
  by (cases res) (auto simp add: sendAlert_def onAlert_def pushAlert_Cons)

theorem delivery_status_witness:
  "\<not> delivered (sendAlert 7 Rejected sampleMessage)
   \<and> \<not> delivered (sendAlert 7 (Response False True) sampleMessage)
   \<and> delivered (sendAlert 7 (Response True False) sampleMessage)
   \<and> hd (onAlert 7 Rejected sampleMessage sampleFeed) = sendAlert 7 Rejected sampleMessage"
  using delivery_status [of 7 Rejected sampleMessage True sampleFeed]
    delivery_status [of 7 "Response False True" sampleMessage True sampleFeed]
    delivery_status [of 7 "Response True False" sampleMessage True sampleFeed]
  by blast


lemma tick_bars:
  "bars tick1 = history @ [flatBar 900 112]" "bars tick2 = history @ [flatBar 900 112.5]"
  by (simp_all add: tick1_def tick2_def chart0_def onmessage_def pushBar_def history_def flatBar_def)

lemma tick_cells:
  "lastPrice tick1 = Some 112" "rsi tick1 = Some 100"
  "lastPrice tick2 = Some 112.5" "rsi tick2 = Some 100"
  by (simp_all add: tick1_def tick2_def onmessage_def lastValue_def flatBar_def)

lemma tick_prevClose: "prevClose (bars tick1) = Some 108" "prevClose (bars tick2) = Some 108"
  by (simp_all add: tick_bars prevClose_def history_def flatBar_def nth_append)

lemma tick_nonempty: "bars tick1 \<noteq> []" "bars tick2 \<noteq> []"
  by (simp_all add: tick_bars)

lemma tick_alerts:
  "alertEffect ''XRPUSDT'' ''1m'' False tick1 [lvl ''a'' (Some 109)]
     = [\<lparr>msg_symbol = ''XRPUSDT'', msg_timeframe = ''1m'', msg_ratio = 0.5,
          msg_price = 109, msg_ha = False, msg_rsi = 100\<rparr>]"
  "alertEffect ''XRPUSDT'' ''1m'' False tick2 [lvl ''a'' (Some 109)]
     = [\<lparr>msg_symbol = ''XRPUSDT'', msg_timeframe = ''1m'', msg_ratio = 0.5,
          msg_price = 109, msg_ha = False, msg_rsi = 100\<rparr>]"
  by (simp_all add: alertEffect_single levelAlert_def tick_prevClose tick_nonempty tick_cells
      crossed_iff rsiOk_simps lvl_def Let_def)

text \<open>
  C1, as stated, fails. The line at 109 is crossed by the bar that closes at 112 after a
  close of 108, and the effect sends a message. The next message of the stream updates
  that same bar to 112.5: the previous completed close is unchanged, the price has not
  come back across the line, and the effect sends a message again.
\<close>

theorem at_most_once_per_crossing_counterexample:
  "alertEffect ''XRPUSDT'' ''1m'' False tick1 [lvl ''a'' (Some 109)] \<noteq> []
   \<and> tick2 = onmessage tick1 (flatBar 900 112.5) (Some [100, 100]) (Some [100, 100])
   \<and> time (flatBar 900 112.5) = time (last (bars tick1))
   \<and> prevClose (bars tick2) = prevClose (bars tick1)
   \<and> lastPrice tick1 = Some 112 \<and> lastPrice tick2 = Some 112.5
   \<and> \<not> (112 < (109::real)) \<and> \<not> (112.5 < (109::real))
   \<and> alertEffect ''XRPUSDT'' ''1m'' False tick2 [lvl ''a'' (Some 109)] \<noteq> []"
proof -
  have "time (flatBar 900 112.5) = time (last (bars tick1))"
    by (simp add: tick_bars flatBar_def)
  moreover have "tick2 = onmessage tick1 (flatBar 900 112.5) (Some [100, 100]) (Some [100, 100])"
    by (simp only: tick2_def)
  moreover have "\<not> (112 < (109::real)) \<and> \<not> (112.5 < (109::real))"
    by simp
  ultimately show ?thesis
    by (simp only: tick_alerts tick_prevClose tick_cells simp_thms list.distinct not_False_eq_True)
qed

lemma pushBar_same_bucket:
  assumes "1 < length bs" "time (last bs) = time b"
  shows "prevClose (pushBar bs b) = prevClose bs"
proof -
  have "bs \<noteq> []" using assms by auto
  then have "pushBar bs b = bs[length bs - 1 := b]" using assms by (simp add: pushBar_def)
  moreover have "length bs - 2 \<noteq> length bs - 1" using assms by arith
  ultimately show ?thesis using assms by (simp add: prevClose_def)
qed

lemma length_map_filter: "length (List.map_filter f xs) = length (filter (\<lambda>x. f x \<noteq> None) xs)"
  by (induction xs) (auto simp add: List.map_filter_simps split: option.splits)

text \<open>
  C1, amended. On each tick the effect sends at most one message per line, and one
  exactly when the line is enabled with alerts on and a price, an RSI value and a
  threshold are present, the crossing test of this tick holds and the gate passes; over
  all lines it sends as many messages as there are such lines. It keeps no record of
  earlier messages. A live update of the bar in progress leaves the previous completed
  close where it was and makes the new close the current price, so after such an update
  the effect sends again exactly when the new close is across the line from the previous
  completed close and the gate passes.
\<close>

theorem alert_once_per_tick:
  "length (alertEffect symb tf ha st [line]) \<le> 1
   \<and> (alertEffect symb tf ha st [line] \<noteq> [] \<longleftrightarrow>
        bars st \<noteq> [] \<and> enabled line \<and> alertEnabled line
        \<and> (\<exists>lp rv thr. price line = Some lp \<and> (if ha then haRsi st else rsi st) = Some rv
              \<and> rsiThreshold line = Some thr
              \<and> crossed (prevClose (bars st)) (lastPrice st) lp \<and> rsiOk (rsiOp line) rv thr))
   \<and> length (alertEffect symb tf ha st fibLines)
       = (if bars st = [] then 0
          else length (filter (\<lambda>l. alertEffect symb tf ha st [l] \<noteq> []) fibLines))
   \<and> (1 < length (bars st) \<and> time (last (bars st)) = time b \<longrightarrow>
        prevClose (bars (onmessage st b r rha)) = prevClose (bars st)
        \<and> lastPrice (onmessage st b r rha) = Some (close b))
   \<and> (1 < length (bars st) \<and> time (last (bars st)) = time b
        \<and> enabled line \<and> alertEnabled line \<and> price line = Some lp
        \<and> (if ha then haRsi (onmessage st b r rha) else rsi (onmessage st b r rha)) = Some rv
        \<and> rsiThreshold line = Some thr \<longrightarrow>
        (alertEffect symb tf ha (onmessage st b r rha) [line] \<noteq> []
           \<longleftrightarrow> crossed (prevClose (bars st)) (Some (close b)) lp \<and> rsiOk (rsiOp line) rv thr))"
proof (intro conjI impI)
  show "length (alertEffect symb tf ha st [line]) \<le> 1"
    by (simp add: alertEffect_single split: option.splits)
  show "alertEffect symb tf ha st [line] \<noteq> [] \<longleftrightarrow>
        bars st \<noteq> [] \<and> enabled line \<and> alertEnabled line
        \<and> (\<exists>lp rv thr. price line = Some lp \<and> (if ha then haRsi st else rsi st) = Some rv
              \<and> rsiThreshold line = Some thr
              \<and> crossed (prevClose (bars st)) (lastPrice st) lp \<and> rsiOk (rsiOp line) rv thr)"
  proof -
    have "alertEffect symb tf ha st [line] \<noteq> []
        \<longleftrightarrow> bars st \<noteq> [] \<and> levelAlert symb tf ha st line \<noteq> None"
      by (simp add: alertEffect_single split: option.splits)
    then show ?thesis by (simp only: levelAlert_Some_iff)
  qed
  show "length (alertEffect symb tf ha st fibLines)
       = (if bars st = [] then 0
          else length (filter (\<lambda>l. alertEffect symb tf ha st [l] \<noteq> []) fibLines))"
    by (cases "fibLines = []")
      (auto simp add: alertEffect_def length_map_filter List.map_filter_simps
        split: option.splits intro!: arg_cong [where f = length] filter_cong)
next
  assume a: "1 < length (bars st) \<and> time (last (bars st)) = time b"
  then show "prevClose (bars (onmessage st b r rha)) = prevClose (bars st)"
    by (simp add: onmessage_def pushBar_same_bucket)
  show "lastPrice (onmessage st b r rha) = Some (close b)"
    by (simp add: onmessage_def)
next
  let ?st = "onmessage st b r rha"
  assume a: "1 < length (bars st) \<and> time (last (bars st)) = time b
        \<and> enabled line \<and> alertEnabled line \<and> price line = Some lp
        \<and> (if ha then haRsi ?st else rsi ?st) = Some rv
        \<and> rsiThreshold line = Some thr"
  have ne: "bars ?st \<noteq> []"
    by (simp add: onmessage_def pushBar_def)
  have pc: "prevClose (bars ?st) = prevClose (bars st)"
    using a by (simp add: onmessage_def pushBar_same_bucket)
  have lp: "lastPrice ?st = Some (close b)"
    by (simp add: onmessage_def)
  have "alertEffect symb tf ha ?st [line] \<noteq> []
      \<longleftrightarrow> bars ?st \<noteq> [] \<and> levelAlert symb tf ha ?st line \<noteq> None"
    by (simp add: alertEffect_single split: option.splits)
  also have "\<dots> \<longleftrightarrow> crossed (prevClose (bars st)) (Some (close b)) lp \<and> rsiOk (rsiOp line) rv thr"
    unfolding levelAlert_Some_iff pc lp using a ne by auto
  finally show "alertEffect symb tf ha ?st [line] \<noteq> []
      \<longleftrightarrow> crossed (prevClose (bars st)) (Some (close b)) lp \<and> rsiOk (rsiOp line) rv thr" .
qed

theorem alert_once_per_tick_witness:
  "1 < length (bars tick1) \<and> time (last (bars tick1)) = time (flatBar 900 112.5)
   \<and> enabled (lvl ''a'' (Some 109)) \<and> alertEnabled (lvl ''a'' (Some 109))
   \<and> price (lvl ''a'' (Some 109)) = Some 109 \<and> rsiThreshold (lvl ''a'' (Some 109)) = Some 60
   \<and> rsi tick2 = Some 100
   \<and> prevClose (bars tick2) = prevClose (bars tick1)
   \<and> crossed (prevClose (bars tick1)) (Some (close (flatBar 900 112.5))) 109
   \<and> rsiOk (rsiOp (lvl ''a'' (Some 109))) 100 60
   \<and> alertEffect ''XRPUSDT'' ''1m'' False tick2 [lvl ''a'' (Some 109)] \<noteq> []
   \<and> length (alertEffect ''XRPUSDT'' ''1m'' False tick2 [lvl ''a'' (Some 109)]) \<le> 1"
proof -
  have h: "1 < length (bars tick1) \<and> time (last (bars tick1)) = time (flatBar 900 112.5)"
    by (simp add: tick_bars history_def flatBar_def)
  have l: "enabled (lvl ''a'' (Some 109)) \<and> alertEnabled (lvl ''a'' (Some 109))
      \<and> price (lvl ''a'' (Some 109)) = Some 109 \<and> rsiThreshold (lvl ''a'' (Some 109)) = Some 60"
    by (simp add: lvl_def)
  have r: "(if False then haRsi tick2 else rsi tick2) = Some 100" "rsi tick2 = Some 100"
    by (simp_all add: tick_cells)
  have x: "crossed (prevClose (bars tick1)) (Some (close (flatBar 900 112.5))) 109"
    by (simp add: tick_prevClose crossed_iff flatBar_def)
  have g: "rsiOk (rsiOp (lvl ''a'' (Some 109))) 100 60"
    by (simp add: lvl_def rsiOk_simps)
  note inst = alert_once_per_tick [of "''XRPUSDT''" "''1m''" False tick2 "lvl ''a'' (Some 109)" "[]"
        "flatBar 900 112.5" "Some [100, 100]" "Some [100, 100]" 109 100 60]
    alert_once_per_tick [of "''XRPUSDT''" "''1m''" False tick1 "lvl ''a'' (Some 109)" "[]"
        "flatBar 900 112.5" "Some [100, 100]" "Some [100, 100]" 109 100 60, folded tick2_def]
  show ?thesis
    using h l r x g inst by blast
qed

end
